theory Spec2Isabelle
  imports Complex_Main
begin

section \<open>JavaScript numbers\<close>

text \<open>
  The loan calculator (\<^verbatim>\<open>src/ts/script.ts\<close> and its compiled twin) computes with
  JavaScript \<^verbatim>\<open>number\<close>s, that is IEEE 754 binary64 values.  A number is modelled as
  \<open>NaN\<close>, one of the two infinities, or a finite value carried as an exact rational.
  Every arithmetic operation computes the exact rational result and rounds it to the
  nearest binary64 value, ties to even (\<open>fl\<close>), as the hardware does.

  The sign of zero is not represented: \<open>-0\<close> and \<open>+0\<close> are both \<open>Fin 0\<close>.  In
  JavaScript the two compare equal, print alike (\<^verbatim>\<open>"0"\<close>) and differ only as the divisor
  of a non-zero dividend; \<open>calculate\<close> divides by a computed value once, and when that
  divisor is zero the dividend is already \<open>NaN\<close>.
\<close>

datatype jsnum = NaN | PInf | NInf | Fin rat

text \<open>
  \<open>log_up b a\<close> counts how often \<open>a \<ge> 1\<close> can be divided by the base \<open>b\<close> before it
  drops below \<open>b\<close>; \<open>log_down b a\<close> counts how often \<open>0 < a < 1\<close> must be multiplied
  by \<open>b\<close> to reach \<open>1\<close>.  Together they give \<open>\<lfloor>log\<^sub>b a\<rfloor>\<close> for a positive rational.
\<close>

function log_up :: "rat \<Rightarrow> rat \<Rightarrow> nat" where
  "log_up b a = (if a < b \<or> b < 2 then 0 else Suc (log_up b (a / b)))"
  by pat_completeness auto
termination
proof (relation "measure (\<lambda>(b, a). nat \<lfloor>a\<rfloor>)")
  show "wf (measure (\<lambda>(b :: rat, a :: rat). nat \<lfloor>a\<rfloor>))" by simp
next
  fix b a :: rat
  assume "\<not> (a < b \<or> b < 2)"
  then have b: "2 \<le> b" and ab: "b \<le> a" by simp_all
  have "a / b \<le> a / 2" by (rule divide_left_mono) (use b ab in simp_all)
  also have "\<dots> \<le> a - 1" using b ab by simp
  finally have "\<lfloor>a / b\<rfloor> \<le> \<lfloor>a - 1\<rfloor>" by (rule floor_mono)
  moreover have "0 < \<lfloor>a\<rfloor>" using b ab by simp
  ultimately show "((b, a / b), (b, a)) \<in> measure (\<lambda>(b, a). nat \<lfloor>a\<rfloor>)" by simp
qed

function log_down :: "rat \<Rightarrow> rat \<Rightarrow> nat" where
  "log_down b a = (if a \<le> 0 \<or> 1 \<le> a \<or> b < 2 then 0 else Suc (log_down b (a * b)))"
  by pat_completeness auto
termination
proof (relation "measure (\<lambda>(b, a). nat \<lfloor>1 / a\<rfloor>)")
  show "wf (measure (\<lambda>(b :: rat, a :: rat). nat \<lfloor>1 / a\<rfloor>))" by simp
next
  fix b a :: rat
  assume "\<not> (a \<le> 0 \<or> 1 \<le> a \<or> b < 2)"
  then have a: "0 < a" "a < 1" and b: "2 \<le> b" by simp_all
  define x where "x = 1 / a"
  have one: "1 < x" using a by (simp add: x_def)
  have nonneg: "0 \<le> x / b" using one b by simp
  have "x / b \<le> x / 2" by (rule divide_left_mono) (use one b in simp_all)
  then have le: "x / b \<le> x / 2" .
  have less: "\<lfloor>x / b\<rfloor> < \<lfloor>x\<rfloor>"
  proof (cases "2 \<le> x")
    case True
    then have "x / 2 \<le> x - 1" by simp
    with le have "x / b \<le> x - 1" by linarith
    then have "\<lfloor>x / b\<rfloor> \<le> \<lfloor>x - 1\<rfloor>" by (rule floor_mono)
    then show ?thesis by simp
  next
    case False
    then have "x / 2 < 1" by simp
    with le have "x / b < 1" by linarith
    with nonneg have "\<lfloor>x / b\<rfloor> = 0" by (simp add: floor_eq_iff)
    moreover have "0 < \<lfloor>x\<rfloor>" using one by simp
    ultimately show ?thesis by simp
  qed
  have "0 < \<lfloor>1 / a\<rfloor>" using one by (simp add: x_def)
  moreover have "\<lfloor>1 / (a * b)\<rfloor> < \<lfloor>1 / a\<rfloor>" using less by (simp add: x_def)
  ultimately show "((b, a * b), (b, a)) \<in> measure (\<lambda>(b, a). nat \<lfloor>1 / a\<rfloor>)" by simp
qed

declare log_up.simps [simp del] log_down.simps [simp del]

definition ilog :: "rat \<Rightarrow> rat \<Rightarrow> int" where
  "ilog b a = (if 1 \<le> a then int (log_up b a) else - int (log_down b a))"

definition roundHalfEven :: "rat \<Rightarrow> int" where
  "roundHalfEven x =
     (let f = \<lfloor>x\<rfloor>; d = x - of_int f
      in if d < 1 / 2 then f else if 1 / 2 < d then f + 1 else if even f then f else f + 1)"

text \<open>
  Rounding of an exact result to binary64: 53 significant bits, exponents from \<open>-1022\<close>
  (below which the spacing stays that of the subnormals, \<open>2\<^sup>-\<^sup>1\<^sup>0\<^sup>7\<^sup>4\<close>) to \<open>1023\<close>; a result
  that rounds to \<open>2\<^sup>1\<^sup>0\<^sup>2\<^sup>4\<close> or more overflows to an infinity.  \<open>ulp a\<close> is the spacing of
  the binary64 values around a positive \<open>a\<close>, \<open>nearest a\<close> the multiple of it nearest to
  \<open>a\<close>, the even one on a tie.
\<close>

definition ulp :: "rat \<Rightarrow> rat" where
  "ulp a = 2 powi (max (ilog 2 a) (- 1022) - 52)"

definition nearest :: "rat \<Rightarrow> rat" where
  "nearest a = of_int (roundHalfEven (a / ulp a)) * ulp a"

definition fl :: "rat \<Rightarrow> jsnum" where
  "fl q =
     (if q = 0 then Fin 0
      else if 2 ^ 1024 \<le> nearest \<bar>q\<bar> then (if 0 < q then PInf else NInf)
      else Fin (if 0 < q then nearest \<bar>q\<bar> else - nearest \<bar>q\<bar>))"

subsection \<open>Comparison and arithmetic\<close>

text \<open>Every comparison with \<open>NaN\<close> is false.\<close>

fun jle :: "jsnum \<Rightarrow> jsnum \<Rightarrow> bool" where
  "jle NaN y = False"
| "jle x NaN = False"
| "jle NInf y = True"
| "jle x PInf = True"
| "jle PInf y = False"
| "jle x NInf = False"
| "jle (Fin a) (Fin b) = (a \<le> b)"

fun jlt :: "jsnum \<Rightarrow> jsnum \<Rightarrow> bool" where
  "jlt NaN y = False"
| "jlt x NaN = False"
| "jlt PInf y = False"
| "jlt x NInf = False"
| "jlt NInf y = True"
| "jlt x PInf = True"
| "jlt (Fin a) (Fin b) = (a < b)"

definition jge :: "jsnum \<Rightarrow> jsnum \<Rightarrow> bool" where
  "jge x y = jle y x"

definition jgt :: "jsnum \<Rightarrow> jsnum \<Rightarrow> bool" where
  "jgt x y = jlt y x"

fun jneg :: "jsnum \<Rightarrow> jsnum" where
  "jneg NaN = NaN"
| "jneg PInf = NInf"
| "jneg NInf = PInf"
| "jneg (Fin a) = Fin (- a)"

text \<open>The sign of a number that is not \<open>NaN\<close>, as \<open>-1\<close>, \<open>0\<close> or \<open>1\<close>.\<close>

fun jsign :: "jsnum \<Rightarrow> int" where
  "jsign NaN = 0"
| "jsign PInf = 1"
| "jsign NInf = - 1"
| "jsign (Fin a) = (if a < 0 then - 1 else if a = 0 then 0 else 1)"

definition signedInf :: "int \<Rightarrow> jsnum" where
  "signedInf s = (if s = 0 then NaN else if 0 < s then PInf else NInf)"

fun jmul :: "jsnum \<Rightarrow> jsnum \<Rightarrow> jsnum" where
  "jmul NaN y = NaN"
| "jmul x NaN = NaN"
| "jmul (Fin a) (Fin b) = fl (a * b)"
| "jmul x y = signedInf (jsign x * jsign y)"

fun jdiv :: "jsnum \<Rightarrow> jsnum \<Rightarrow> jsnum" where
  "jdiv NaN y = NaN"
| "jdiv x NaN = NaN"
| "jdiv (Fin a) (Fin b) = (if b = 0 then signedInf (jsign (Fin a)) else fl (a / b))"
| "jdiv (Fin a) y = Fin 0"
| "jdiv x (Fin b) = signedInf (jsign x * (if b < 0 then - 1 else 1))"
| "jdiv x y = NaN"

fun jadd :: "jsnum \<Rightarrow> jsnum \<Rightarrow> jsnum" where
  "jadd NaN y = NaN"
| "jadd x NaN = NaN"
| "jadd (Fin a) (Fin b) = fl (a + b)"
| "jadd (Fin a) y = y"
| "jadd x (Fin b) = x"
| "jadd PInf PInf = PInf"
| "jadd NInf NInf = NInf"
| "jadd x y = NaN"

definition jsub :: "jsnum \<Rightarrow> jsnum \<Rightarrow> jsnum" where
  "jsub x y = jadd x (jneg y)"

text \<open>
  The remainder operator \<^verbatim>\<open>%\<close>: the result has the sign of the dividend and is exact;
  it is \<open>NaN\<close> for an infinite dividend or a zero divisor, and the dividend itself for
  an infinite divisor.
\<close>

definition truncate_rat :: "rat \<Rightarrow> int" where
  "truncate_rat q = (if 0 \<le> q then \<lfloor>q\<rfloor> else \<lceil>q\<rceil>)"

fun jmod :: "jsnum \<Rightarrow> jsnum \<Rightarrow> jsnum" where
  "jmod NaN y = NaN"
| "jmod x NaN = NaN"
| "jmod PInf y = NaN"
| "jmod NInf y = NaN"
| "jmod (Fin a) (Fin b) = (if b = 0 then NaN else Fin (a - b * of_int (truncate_rat (a / b))))"
| "jmod (Fin a) y = Fin a"

text \<open>\<^verbatim>\<open>Math.ceil\<close>.\<close>

fun ceil :: "jsnum \<Rightarrow> jsnum" where
  "ceil (Fin a) = Fin (of_int \<lceil>a\<rceil>)"
| "ceil x = x"

subsection \<open>Printing a number\<close>

text \<open>
  \<^verbatim>\<open>Number.prototype.toString\<close> prints the shortest decimal digit string that reads back
  as the same binary64 value (the closest one, the even one on a tie), laid out as an
  integer, a decimal fraction or in exponent notation according to its magnitude.
  \<open>shortestDigits\<close> searches that digit string for growing lengths \<open>k\<close>; seventeen
  digits identify every binary64 value.  For an integer of magnitude at most \<open>2\<^sup>5\<^sup>3\<close>
  no other integer multiple of a power of ten reads back as it (neighbouring values are at
  most \<open>1\<close> apart), so it prints as its ordinary decimal expansion, written out directly.
\<close>

definition digitChar :: "nat \<Rightarrow> char" where
  "digitChar d = ''0123456789'' ! d"

fun decimalDigits :: "nat \<Rightarrow> string" where
  "decimalDigits n =
     (if n < 10 then [digitChar n]
      else decimalDigits (n div 10) @ [digitChar (n mod 10)])"

declare decimalDigits.simps [simp del]

definition roundTrips :: "rat \<Rightarrow> int \<Rightarrow> int \<Rightarrow> bool" where
  "roundTrips q s p = (fl (of_int s * 10 powi p) = Fin q)"

fun shortestDigits :: "nat \<Rightarrow> nat \<Rightarrow> int \<Rightarrow> rat \<Rightarrow> int \<times> nat" where
  "shortestDigits 0 k n q = (\<lfloor>q / 10 powi (n - int k)\<rfloor>, k)"
| "shortestDigits (Suc fuel) k n q =
     (let p = n - int k;
          lo = \<lfloor>q / 10 powi p\<rfloor>;
          hi = lo + 1;
          dLo = q - of_int lo * 10 powi p;
          dHi = of_int hi * 10 powi p - q
      in if roundTrips q lo p \<and> roundTrips q hi p then
           (if dLo < dHi then (lo, k) else if dHi < dLo then (hi, k)
            else if even lo then (lo, k) else (hi, k))
         else if roundTrips q lo p then (lo, k)
         else if roundTrips q hi p then (hi, k)
         else shortestDigits fuel (Suc k) n q)"

definition layout :: "string \<Rightarrow> int \<Rightarrow> string" where
  "layout digits n =
     (let k = int (length digits)
      in if k \<le> n \<and> n \<le> 21 then digits @ replicate (nat (n - k)) (CHR ''0'')
         else if 0 < n \<and> n \<le> 21 then take (nat n) digits @ ''.'' @ drop (nat n) digits
         else if - 6 < n \<and> n \<le> 0 then ''0.'' @ replicate (nat (- n)) (CHR ''0'') @ digits
         else
           let e = n - 1;
               es = (if e < 0 then ''-'' else ''+'') @ decimalDigits (nat \<bar>e\<bar>)
           in if k = 1 then digits @ ''e'' @ es
              else [hd digits] @ ''.'' @ tl digits @ ''e'' @ es)"

definition positiveToString :: "rat \<Rightarrow> string" where
  "positiveToString q =
     (if of_int \<lfloor>q\<rfloor> = q \<and> q \<le> 2 ^ 53 then decimalDigits (nat \<lfloor>q\<rfloor>)
      else
        let n = ilog 10 q + 1;
            (s, k) = shortestDigits 17 1 n q
        in if s = 10 ^ k then layout ''1'' (n + 1) else layout (decimalDigits (nat s)) n)"

fun toString :: "jsnum \<Rightarrow> string" where
  "toString NaN = ''NaN''"
| "toString PInf = ''Infinity''"
| "toString NInf = ''-Infinity''"
| "toString (Fin q) =
     (if q = 0 then ''0''
      else if q < 0 then ''-'' @ positiveToString (- q)
      else positiveToString q)"

section \<open>Reading numbers from text\<close>

text \<open>
  A field's text is a \<open>string\<close>; each character stands for the UTF-16 code unit of the
  same number, so the texts covered are those of code units below 256.  Of the white
  space that \<^verbatim>\<open>parseInt\<close> and \<^verbatim>\<open>parseFloat\<close> skip, these are TAB, LF, VT, FF, CR, the space
  and the no-break space.
\<close>

definition isWhiteSpace :: "char \<Rightarrow> bool" where
  "isWhiteSpace c = ((9 :: nat) \<le> of_char c \<and> of_char c \<le> (13 :: nat)
     \<or> of_char c = (32 :: nat) \<or> of_char c = (160 :: nat))"

definition isDecimalDigit :: "char \<Rightarrow> bool" where
  "isDecimalDigit c = ((48 :: nat) \<le> of_char c \<and> of_char c \<le> (57 :: nat))"

definition isHexDigit :: "char \<Rightarrow> bool" where
  "isHexDigit c = (isDecimalDigit c
     \<or> (97 :: nat) \<le> of_char c \<and> of_char c \<le> (102 :: nat)
     \<or> (65 :: nat) \<le> of_char c \<and> of_char c \<le> (70 :: nat))"

definition digitValue :: "char \<Rightarrow> nat" where
  "digitValue c =
     (if isDecimalDigit c then of_char c - 48
      else if (97 :: nat) \<le> of_char c then of_char c - 87
      else of_char c - 55)"

definition digitsValue :: "nat \<Rightarrow> string \<Rightarrow> nat" where
  "digitsValue R ds = foldl (\<lambda>acc c. acc * R + digitValue c) 0 ds"

text \<open>An optional sign in front of a text: whether it is a minus, and the rest.\<close>

fun takeSign :: "string \<Rightarrow> bool \<times> string" where
  "takeSign [] = (False, [])"
| "takeSign (c # cs) =
     (if c = CHR ''-'' then (True, cs) else if c = CHR ''+'' then (False, cs)
      else (False, c # cs))"

text \<open>
  \<^verbatim>\<open>parseInt(string)\<close> with no radix: leading white space is skipped, a sign is read, a
  prefix \<^verbatim>\<open>0x\<close> or \<^verbatim>\<open>0X\<close> selects radix 16, and the longest run of digits of the radix
  is the value, rounded to binary64; with no digit the result is \<open>NaN\<close>.  Whatever
  follows the digits (a decimal point, an exponent, any other text) is ignored.
\<close>

definition parseInt :: "string \<Rightarrow> jsnum" where
  "parseInt inputString =
     (let (neg, S) = takeSign (dropWhile isWhiteSpace inputString);
          hex = (take 2 S = ''0x'' \<or> take 2 S = ''0X'');
          Z = (if hex then takeWhile isHexDigit (drop 2 S) else takeWhile isDecimalDigit S);
          mathInt = int (digitsValue (if hex then 16 else 10) Z)
      in if Z = [] then NaN else fl (of_int (if neg then - mathInt else mathInt)))"

text \<open>
  \<^verbatim>\<open>parseFloat(string)\<close>: leading white space is skipped and the longest prefix that is a
  decimal literal is read: a sign, then \<^verbatim>\<open>Infinity\<close>, or digits with an optional point
  and fraction (at least one digit in all) and an optional exponent, which counts only
  when it has a digit.  With no such prefix the result is \<open>NaN\<close>.
\<close>

definition exponentPart :: "string \<Rightarrow> int" where
  "exponentPart r =
     (case r of
        [] \<Rightarrow> 0
      | c # cs \<Rightarrow>
          if c = CHR ''e'' \<or> c = CHR ''E'' then
            let (eneg, r') = takeSign cs;
                ed = takeWhile isDecimalDigit r';
                v = int (digitsValue 10 ed)
            in if ed = [] then 0 else if eneg then - v else v
          else 0)"

definition parseFloat :: "string \<Rightarrow> jsnum" where
  "parseFloat inputString =
     (let (neg, S) = takeSign (dropWhile isWhiteSpace inputString)
      in if take 8 S = ''Infinity'' then (if neg then NInf else PInf)
         else
           let ip = takeWhile isDecimalDigit S;
               r1 = dropWhile isDecimalDigit S;
               hasDot = (take 1 r1 = ''.'');
               fp = (if hasDot then takeWhile isDecimalDigit (drop 1 r1) else []);
               r2 = (if hasDot then dropWhile isDecimalDigit (drop 1 r1) else r1);
               mv = (of_nat (digitsValue 10 ip) + of_nat (digitsValue 10 fp) / 10 ^ length fp)
                      * 10 powi exponentPart r2
           in if ip = [] \<and> fp = [] then NaN else fl (if neg then - mv else mv))"

section \<open>The page: error elements\<close>

text \<open>
  An error element of the page is reduced to what the calculator touches: its text and
  its class list, in which the class \<^verbatim>\<open>d-none\<close> hides the element.  An element that
  \<^verbatim>\<open>querySelector\<close> did not find is \<open>None\<close> (\<^verbatim>\<open>null\<close>).
\<close>

record element =
  textContent :: string
  classList :: "string list"

record errorFields =
  borrowValidationFail :: "element option"
  salaryValidationFail :: "element option"
  repayValidationFail :: "element option"

text \<open>The result object handed to the template.\<close>

record feeData =
  adminFeePounds :: string
  adminFeePennies :: string
  monthlyRepaymentPounds :: string
  monthlyRepaymentPennies :: string
  finalMonthPaymentPounds :: string
  finalMonthPaymentPennies :: string
  totalCostPounds :: string
  totalCostPennies :: string
  timeToRepay :: string

datatype js_error = TypeError

definition classList_add :: "string \<Rightarrow> element \<Rightarrow> element" where
  "classList_add c e =
     (if c \<in> set (classList e) then e else e\<lparr>classList := classList e @ [c]\<rparr>)"

definition classList_remove :: "string \<Rightarrow> element \<Rightarrow> element" where
  "classList_remove c e = e\<lparr>classList := removeAll c (classList e)\<rparr>"

definition isHidden :: "element \<Rightarrow> bool" where
  "isHidden e = (''d-none'' \<in> set (classList e))"

section \<open>The calculator\<close>

definition displayError :: "element \<Rightarrow> string \<Rightarrow> element" where
  "displayError errorElement errorMsg =
     classList_remove ''d-none'' (errorElement\<lparr>textContent := errorMsg\<rparr>)"

text \<open>
  \<open>runValidation\<close> returns whether the condition holds, and the error element as it
  leaves it: hidden when the condition holds, showing the message when it does not.
  The exception it throws on failure is caught in the same function.
\<close>

definition runValidation :: "bool \<Rightarrow> string \<Rightarrow> element option \<Rightarrow> bool \<times> element option" where
  "runValidation condition errorMsg errorElement =
     (if condition then (True, map_option (classList_add ''d-none'') errorElement)
      else (False, map_option (\<lambda>e. displayError e errorMsg) errorElement))"

text \<open>
  \<open>amountCondition\<close> takes the field's \<^verbatim>\<open>value\<close>, and the bounds, \<open>None\<close> for a
  bound that is not passed (\<^verbatim>\<open>undefined\<close>).
\<close>

definition amountCondition :: "string \<Rightarrow> jsnum option \<Rightarrow> jsnum option \<Rightarrow> bool" where
  "amountCondition amountField minValue maxValue =
     (let amountToMeasure = parseInt amountField;
          minValue' = (case minValue of None \<Rightarrow> NInf | Some v \<Rightarrow> v);
          maxValue' = (case maxValue of None \<Rightarrow> PInf | Some v \<Rightarrow> v)
      in jge amountToMeasure minValue' \<and> jle amountToMeasure maxValue')"

text \<open>
  \<open>rightTruncate\<close>: the loop puts \<open>length\<close> zeros in front of the printed number, and
  \<^verbatim>\<open>slice(-length)\<close> keeps the last \<open>length\<close> characters (the whole string for
  \<open>length = 0\<close>, where \<^verbatim>\<open>slice(-0)\<close> is \<^verbatim>\<open>slice(0)\<close>).
\<close>

fun padLoop :: "nat \<Rightarrow> string \<Rightarrow> string" where
  "padLoop 0 stringToPad = stringToPad"
| "padLoop (Suc i) stringToPad = padLoop i (CHR ''0'' # stringToPad)"

definition sliceLast :: "string \<Rightarrow> nat \<Rightarrow> string" where
  "sliceLast s n = (if n = 0 then s else drop (length s - n) s)"

definition rightTruncate :: "jsnum \<Rightarrow> nat \<Rightarrow> string" where
  "rightTruncate input len = sliceLast (padLoop len (toString input)) len"

text \<open>
  The constants of the body of \<open>calculate\<close>, each as a function of the texts of the
  fields it is computed from; \<open>0.05\<close> is the binary64 value nearest to \<open>1/20\<close>.
\<close>

definition amountToBorrow :: "string \<Rightarrow> jsnum" where
  "amountToBorrow borrowField = jmul (Fin 100) (parseFloat borrowField)"

definition expectedSalary :: "string \<Rightarrow> jsnum" where
  "expectedSalary salaryField = jmul (Fin 100) (parseFloat salaryField)"

definition monthlyPercRepay :: "string \<Rightarrow> jsnum" where
  "monthlyPercRepay repayPercField = jdiv (parseFloat repayPercField) (Fin 100)"

definition adminFee :: "string \<Rightarrow> jsnum" where
  "adminFee borrowField = ceil (jmul (fl (5 / 100)) (amountToBorrow borrowField))"

definition totalCost :: "string \<Rightarrow> jsnum" where
  "totalCost borrowField =
     jadd (jadd (Fin 800000)
             (if jgt (amountToBorrow borrowField) (Fin 640000) then Fin 50000 else Fin 0))
          (if jgt (amountToBorrow borrowField) (Fin 720000) then Fin 50000 else Fin 0)"

definition monthlyAmountRepaid :: "string \<Rightarrow> string \<Rightarrow> jsnum" where
  "monthlyAmountRepaid salaryField repayPercField =
     ceil (jmul (monthlyPercRepay repayPercField) (expectedSalary salaryField))"

definition repayInLastMonth :: "string \<Rightarrow> string \<Rightarrow> string \<Rightarrow> jsnum" where
  "repayInLastMonth borrowField salaryField repayPercField =
     jmod (totalCost borrowField) (monthlyAmountRepaid salaryField repayPercField)"

definition timeToRepay' :: "string \<Rightarrow> string \<Rightarrow> string \<Rightarrow> jsnum" where
  "timeToRepay' borrowField salaryField repayPercField =
     jadd (Fin 1)
       (ceil (jdiv (jsub (totalCost borrowField)
                      (repayInLastMonth borrowField salaryField repayPercField))
                (monthlyAmountRepaid salaryField repayPercField)))"

text \<open>An amount of pence split into its pennies (\<^verbatim>\<open>x % 100\<close>) and pounds.\<close>

definition pennies :: "jsnum \<Rightarrow> jsnum" where
  "pennies x = jmod x (Fin 100)"

definition pounds :: "jsnum \<Rightarrow> jsnum" where
  "pounds x = jdiv (jsub x (pennies x)) (Fin 100)"

text \<open>The object that \<open>calculate\<close> returns when the validations pass.\<close>

definition computeFeeData :: "string \<Rightarrow> string \<Rightarrow> string \<Rightarrow> feeData" where
  "computeFeeData borrowField salaryField repayPercField =
     \<lparr> adminFeePounds = toString (pounds (adminFee borrowField)),
       adminFeePennies = rightTruncate (pennies (adminFee borrowField)) 2,
       monthlyRepaymentPounds =
         toString (pounds (monthlyAmountRepaid salaryField repayPercField)),
       monthlyRepaymentPennies =
         rightTruncate (pennies (monthlyAmountRepaid salaryField repayPercField)) 2,
       finalMonthPaymentPounds =
         toString (pounds (repayInLastMonth borrowField salaryField repayPercField)),
       finalMonthPaymentPennies =
         rightTruncate (pennies (repayInLastMonth borrowField salaryField repayPercField)) 2,
       totalCostPounds = toString (pounds (totalCost borrowField)),
       totalCostPennies = rightTruncate (pennies (totalCost borrowField)) 2,
       timeToRepay = toString (timeToRepay' borrowField salaryField repayPercField) \<rparr>"

text \<open>
  \<open>calculate\<close> takes the texts of the three fields and the error elements, which the
  signature allows to be absent; it reads their properties all the same, so a call
  without them throws.  Otherwise it returns the error elements as the validations
  leave them, and the result object, or no result (\<^verbatim>\<open>undefined\<close>) when a validation
  fails.  The three validations are joined by \<^verbatim>\<open>&&\<close>: the second runs only when the
  first has passed, the third only when the second has.
\<close>

definition calculate ::
  "string \<Rightarrow> string \<Rightarrow> string \<Rightarrow> errorFields option \<Rightarrow> js_error + errorFields \<times> feeData option"
where
  "calculate borrowField salaryField repayPercField errFields =
     (case errFields of
        None \<Rightarrow> Inl TypeError
      | Some ef \<Rightarrow>
          let (ok1, e1) =
                runValidation (amountCondition borrowField (Some (Fin 0)) (Some (Fin 9000)))
                  ''Amount to borrow must be a number between 0 and 9000''
                  (borrowValidationFail ef);
              ef1 = ef\<lparr>borrowValidationFail := e1\<rparr>
          in if ok1 then
               let (ok2, e2) =
                     runValidation (amountCondition salaryField (Some (Fin 0)) None)
                       ''Expected monthly salary must be at least 0''
                       (salaryValidationFail ef1);
                   ef2 = ef1\<lparr>salaryValidationFail := e2\<rparr>
               in if ok2 then
                    let (ok3, e3) =
                          runValidation
                            (amountCondition repayPercField (Some (Fin 10)) (Some (Fin 100)))
                            ''Amount to repay must be between 10% and 100%''
                            (repayValidationFail ef2);
                        ef3 = ef2\<lparr>repayValidationFail := e3\<rparr>
                    in if ok3 then
                         Inr (ef3, Some (computeFeeData borrowField salaryField repayPercField))
                       else Inr (ef3, None)
                  else Inr (ef2, None)
             else Inr (ef1, None))"

text \<open>
  The page as it is loaded: each of the three error elements exists, is empty and hidden.
\<close>

definition hiddenElement :: element where
  "hiddenElement = \<lparr>textContent = '''', classList = [''d-none'']\<rparr>"

definition initialErrors :: errorFields where
  "initialErrors =
     \<lparr> borrowValidationFail = Some hiddenElement,
       salaryValidationFail = Some hiddenElement,
       repayValidationFail = Some hiddenElement \<rparr>"

text \<open>
  The number that a decimal numeral denotes: a sign (\<^verbatim>\<open>-\<close>, \<^verbatim>\<open>+\<close> or none), the digits
  before the point and the digits after it.  This is the value of the entered text that
  the range checks are compared with below.
\<close>

definition decimalValue :: "string \<Rightarrow> string \<Rightarrow> string \<Rightarrow> rat" where
  "decimalValue sg ip fp =
     (if sg = ''-'' then - 1 else 1)
       * (of_nat (digitsValue 10 ip) + of_nat (digitsValue 10 fp) / 10 ^ length fp)"

lemmas parse_defs =
  parseInt_def parseFloat_def exponentPart_def isWhiteSpace_def isDecimalDigit_def
  isHexDigit_def digitsValue_def digitValue_def

section \<open>Facts about rounding to binary64\<close>

lemma log_up_bounds:
  "2 \<le> b \<Longrightarrow> 1 \<le> a \<Longrightarrow> b ^ log_up b a \<le> a \<and> a < b ^ Suc (log_up b a)"
proof (induction b a rule: log_up.induct)
  case (1 b a)
  show ?case
  proof (cases "a < b")
    case True
    then show ?thesis using "1.prems" by (simp add: log_up.simps [of b a])
  next
    case False
    then have step: "log_up b a = Suc (log_up b (a / b))"
      using "1.prems" by (simp add: log_up.simps [of b a])
    have bpos: "0 < b" using "1.prems" by simp
    have "1 \<le> a / b" using False bpos by simp
    with "1.IH" False "1.prems" have
      ih: "b ^ log_up b (a / b) \<le> a / b \<and> a / b < b ^ Suc (log_up b (a / b))"
      by simp
    from ih have "b ^ log_up b (a / b) * b \<le> a"
      using bpos by (simp add: pos_le_divide_eq)
    moreover from ih have "a < b ^ Suc (log_up b (a / b)) * b"
      using bpos by (simp add: pos_divide_less_eq)
    ultimately show ?thesis by (simp add: step mult.commute)
  qed
qed

lemma log_down_bounds:
  "2 \<le> b \<Longrightarrow> 0 < a \<Longrightarrow> a < 1 \<Longrightarrow>
     1 \<le> a * b ^ log_down b a \<and> a * b ^ log_down b a < b"
proof (induction b a rule: log_down.induct)
  case (1 b a)
  have step: "log_down b a = Suc (log_down b (a * b))"
    using "1.prems" by (simp add: log_down.simps [of b a])
  have bpos: "0 < b" using "1.prems" by simp
  show ?case
  proof (cases "1 \<le> a * b")
    case True
    then have "log_down b (a * b) = 0" by (simp add: log_down.simps [of b "a * b"])
    moreover have "a * b < b" using "1.prems" bpos by simp
    ultimately show ?thesis using True by (simp add: step)
  next
    case False
    moreover have "0 < a * b" using "1.prems" bpos by simp
    ultimately have "1 \<le> a * b * b ^ log_down b (a * b) \<and> a * b * b ^ log_down b (a * b) < b"
      using "1.IH" "1.prems" by simp
    then show ?thesis by (simp add: step mult.assoc)
  qed
qed

lemma ilog2_bounds:
  assumes "0 < a"
  shows "2 powi (ilog 2 a) \<le> a \<and> a < 2 powi (ilog 2 a + 1)"
proof (cases "1 \<le> a")
  case True
  then have "2 ^ log_up 2 a \<le> a \<and> a < 2 ^ Suc (log_up 2 a)"
    using log_up_bounds [of 2 a] by simp
  moreover have "int (log_up 2 a) + 1 = int (Suc (log_up 2 a))" by simp
  ultimately show ?thesis using True
    unfolding ilog_def by (simp only: if_True power_int_of_nat)
next
  case False
  define n where "n = log_down 2 a"
  have b: "1 \<le> a * 2 ^ n \<and> a * 2 ^ n < 2"
    using log_down_bounds [of 2 a] assms False by (simp add: n_def)
  have e: "ilog 2 a = - int n" using False by (simp add: ilog_def n_def)
  have p: "(2::rat) powi (- int n) = 1 / 2 ^ n" by (simp add: power_int_minus_divide)
  have "(2::rat) powi (- int n + 1) = 2 powi (- int n) * 2 powi 1"
    by (rule power_int_add) simp
  then have q: "(2::rat) powi (- int n + 1) = 2 / 2 ^ n"
    by (simp add: p)
  show ?thesis using b unfolding e p q by (simp add: field_simps)
qed

lemma ilog2_unique:
  assumes "0 < a" "2 powi e \<le> a" "a < 2 powi (e + 1)"
  shows "ilog 2 a = e"
proof -
  let ?i = "ilog 2 a"
  have b: "2 powi ?i \<le> a" "a < 2 powi (?i + 1)" using ilog2_bounds [OF assms(1)] by simp_all
  have "\<not> ?i < e"
  proof
    assume "?i < e"
    then have "(2::rat) powi (?i + 1) \<le> 2 powi e" by (intro power_int_increasing) simp_all
    with b assms show False by linarith
  qed
  moreover have "\<not> e < ?i"
  proof
    assume "e < ?i"
    then have "(2::rat) powi (e + 1) \<le> 2 powi ?i" by (intro power_int_increasing) simp_all
    with b assms show False by linarith
  qed
  ultimately show ?thesis by simp
qed

lemma roundHalfEven_near:
  assumes "\<bar>x - of_int k\<bar> < 1 / 2"
  shows "roundHalfEven x = k"
proof (cases "of_int k \<le> x")
  case True
  then have "\<lfloor>x\<rfloor> = k" using assms by (simp add: floor_eq_iff; linarith?)
  then show ?thesis using assms True by (simp add: roundHalfEven_def Let_def)
next
  case False
  then have "\<lfloor>x\<rfloor> = k - 1" using assms by (simp add: floor_eq_iff; linarith?)
  then show ?thesis using assms False by (simp add: roundHalfEven_def Let_def; linarith?)
qed

lemma roundHalfEven_of_int [simp]: "roundHalfEven (of_int k) = k"
  by (rule roundHalfEven_near) simp

lemma roundHalfEven_ge:
  assumes "of_int m \<le> x"
  shows "m \<le> roundHalfEven x"
proof -
  have "m \<le> \<lfloor>x\<rfloor>" using assms by (simp add: le_floor_iff)
  then show ?thesis by (simp add: roundHalfEven_def Let_def)
qed

lemma roundHalfEven_le:
  assumes "x \<le> of_int m"
  shows "roundHalfEven x \<le> m"
proof (cases "x = of_int m")
  case True
  then show ?thesis by simp
next
  case False
  with assms have "x < of_int m" by simp
  then have "\<lfloor>x\<rfloor> < m" by (simp add: floor_less_iff)
  then show ?thesis by (simp add: roundHalfEven_def Let_def)
qed

lemma roundHalfEven_mono:
  assumes "x \<le> y"
  shows "roundHalfEven x \<le> roundHalfEven y"
proof (cases "\<lfloor>x\<rfloor> = \<lfloor>y\<rfloor>")
  case True
  have "x - of_int \<lfloor>x\<rfloor> \<le> y - of_int \<lfloor>y\<rfloor>" using assms True by simp
  then show ?thesis using True by (simp add: roundHalfEven_def Let_def)
next
  case False
  have "\<lfloor>x\<rfloor> \<le> \<lfloor>y\<rfloor>" using assms by (rule floor_mono)
  with False have "\<lfloor>x\<rfloor> + 1 \<le> \<lfloor>y\<rfloor>" by simp
  moreover have "roundHalfEven x \<le> \<lfloor>x\<rfloor> + 1" by (simp add: roundHalfEven_def Let_def)
  moreover have "\<lfloor>y\<rfloor> \<le> roundHalfEven y" by (simp add: roundHalfEven_def Let_def)
  ultimately show ?thesis by linarith
qed

lemma ulp_pos [simp]: "0 < ulp a"
  by (simp add: ulp_def)

lemma ulp_nonneg [simp]: "0 \<le> ulp a"
  by (rule less_imp_le) (rule ulp_pos)

lemma powi_shift: "(2 :: rat) powi (e - int k) * 2 ^ k = 2 powi e"
proof -
  have "(2 :: rat) powi (e - int k + int k) = 2 powi (e - int k) * 2 powi (int k)"
    by (rule power_int_add) simp
  then show ?thesis by simp
qed

lemma ulp_eq:
  assumes "0 < a" "2 powi e \<le> a" "a < 2 powi (e + 1)" "- 1022 \<le> e"
  shows "ulp a = 2 powi (e - 52)"
  using ilog2_unique [OF assms(1-3)] assms(4) by (simp add: ulp_def)

text \<open>The rounded value stays inside the closed binade of its argument.\<close>

lemma ulp_times_53: "2 ^ 53 * ulp a = 2 powi (max (ilog 2 a) (- 1022) + 1)"
  using powi_shift [of "max (ilog 2 a) (- 1022) + 1" 53] by (simp add: ulp_def mult.commute)

lemma ulp_times_52: "2 ^ 52 * ulp a = 2 powi (max (ilog 2 a) (- 1022))"
  using powi_shift [of "max (ilog 2 a) (- 1022)" 52] by (simp add: ulp_def mult.commute)

lemma nearest_upper:
  assumes "0 < a"
  shows "nearest a \<le> 2 ^ 53 * ulp a"
proof -
  let ?e = "max (ilog 2 a) (- 1022)"
  have "a < 2 powi (ilog 2 a + 1)" using ilog2_bounds [OF assms] by simp
  also have "\<dots> \<le> 2 powi (?e + 1)" by (intro power_int_increasing) simp_all
  also have "\<dots> = 2 ^ 53 * ulp a" by (rule ulp_times_53 [symmetric])
  finally have "a / ulp a \<le> 2 ^ 53"
    by (simp add: pos_divide_le_eq)
  then have "a / ulp a \<le> of_int (2 ^ 53)" by simp
  then have "roundHalfEven (a / ulp a) \<le> 2 ^ 53" by (rule roundHalfEven_le)
  then have "(of_int (roundHalfEven (a / ulp a)) :: rat) \<le> of_int (2 ^ 53)"
    by (simp only: of_int_le_iff)
  then have "of_int (roundHalfEven (a / ulp a)) * ulp a \<le> of_int (2 ^ 53) * ulp a"
    by (rule mult_right_mono) simp
  then show ?thesis unfolding nearest_def by simp
qed

lemma nearest_lower:
  assumes "0 < a" "- 1022 \<le> ilog 2 a"
  shows "2 ^ 52 * ulp a \<le> nearest a"
proof -
  have "2 ^ 52 * ulp a = 2 powi (ilog 2 a)"
    using assms(2) by (simp only: ulp_times_52 max_def) simp
  also have "\<dots> \<le> a" using ilog2_bounds [OF assms(1)] by simp
  finally have "2 ^ 52 \<le> a / ulp a"
    by (simp add: pos_le_divide_eq)
  then have "of_int (2 ^ 52) \<le> a / ulp a" by simp
  then have "2 ^ 52 \<le> roundHalfEven (a / ulp a)" by (rule roundHalfEven_ge)
  then have "(of_int (2 ^ 52) :: rat) \<le> of_int (roundHalfEven (a / ulp a))"
    by (simp only: of_int_le_iff)
  then have "of_int (2 ^ 52) * ulp a \<le> of_int (roundHalfEven (a / ulp a)) * ulp a"
    by (rule mult_right_mono) simp
  then show ?thesis unfolding nearest_def by simp
qed

lemma nearest_nonneg:
  assumes "0 < a"
  shows "0 \<le> nearest a"
proof -
  have "0 \<le> a / ulp a" using assms by (intro divide_nonneg_pos) simp_all
  then have "of_int 0 \<le> a / ulp a" by simp
  then have "0 \<le> roundHalfEven (a / ulp a)" by (rule roundHalfEven_ge)
  then show ?thesis by (simp add: nearest_def)
qed

lemma ilog2_mono:
  assumes "0 < a" "a \<le> b"
  shows "ilog 2 a \<le> ilog 2 b"
proof (rule ccontr)
  assume "\<not> ilog 2 a \<le> ilog 2 b"
  then have "ilog 2 b + 1 \<le> ilog 2 a" by simp
  then have "(2 :: rat) powi (ilog 2 b + 1) \<le> 2 powi (ilog 2 a)"
    by (intro power_int_increasing) simp_all
  moreover have "b < 2 powi (ilog 2 b + 1)" using ilog2_bounds [of b] assms by simp
  moreover have "2 powi (ilog 2 a) \<le> a" using ilog2_bounds [of a] assms by simp
  ultimately show False using assms by linarith
qed

lemma nearest_mono:
  assumes "0 < a" "a \<le> b"
  shows "nearest a \<le> nearest b"
proof -
  let ?ea = "max (ilog 2 a) (- 1022)" and ?eb = "max (ilog 2 b) (- 1022)"
  have bpos: "0 < b" using assms by simp
  have le: "?ea \<le> ?eb" using ilog2_mono [OF assms] by simp
  show ?thesis
  proof (cases "?ea = ?eb")
    case True
    then have u: "ulp a = ulp b" by (simp add: ulp_def)
    have "a / ulp b \<le> b / ulp b" using assms(2) by (rule divide_right_mono) simp
    then have "roundHalfEven (a / ulp b) \<le> roundHalfEven (b / ulp b)"
      by (rule roundHalfEven_mono)
    then have "(of_int (roundHalfEven (a / ulp b)) :: rat) \<le> of_int (roundHalfEven (b / ulp b))"
      by (simp only: of_int_le_iff)
    then have "of_int (roundHalfEven (a / ulp b)) * ulp b
        \<le> of_int (roundHalfEven (b / ulp b)) * ulp b"
      by (rule mult_right_mono) simp
    then show ?thesis unfolding nearest_def u .
  next
    case False
    with le have lt: "?ea + 1 \<le> ?eb" by simp
    then have unclamped: "- 1022 \<le> ilog 2 b" by (simp add: max_def split: if_splits)
    have "nearest a \<le> 2 ^ 53 * ulp a" by (rule nearest_upper [OF assms(1)])
    also have "\<dots> = 2 powi (?ea + 1)" by (rule ulp_times_53)
    also have "\<dots> \<le> 2 powi ?eb" using lt by (intro power_int_increasing) simp_all
    also have "\<dots> = 2 ^ 52 * ulp b" by (rule ulp_times_52 [symmetric])
    also have "\<dots> \<le> nearest b" by (rule nearest_lower [OF bpos unclamped])
    finally show ?thesis .
  qed
qed

lemma nearest_cert:
  assumes "0 < a" "n \<le> 1074" "2 ^ 52 \<le> a * 2 ^ n" "a * 2 ^ n < 2 ^ 53"
    and "\<bar>a * 2 ^ n - of_int k\<bar> < 1 / 2"
  shows "nearest a = of_int k / 2 ^ n"
proof -
  let ?e = "52 - int n"
  have p: "(2 :: rat) powi ?e = 2 ^ 52 / 2 ^ n"
    by (simp add: power_int_diff)
  have q: "(2 :: rat) powi (?e + 1) = 2 ^ 53 / 2 ^ n"
  proof -
    have "?e + 1 = 53 - int n" by simp
    then show ?thesis by (simp add: power_int_diff)
  qed
  have "2 powi ?e \<le> a" unfolding p using assms(3) by (simp add: pos_divide_le_eq)
  moreover have "a < 2 powi (?e + 1)" unfolding q using assms(4) by (simp add: pos_less_divide_eq)
  ultimately have "ulp a = 2 powi (?e - 52)"
    using assms(1,2) by (intro ulp_eq) simp_all
  then have u: "ulp a = 1 / 2 ^ n" by (simp add: power_int_minus_divide)
  have "roundHalfEven (a * 2 ^ n) = k" using assms(5) by (rule roundHalfEven_near)
  then show ?thesis by (simp add: nearest_def u)
qed

lemma nearest_of_int:
  assumes "1 \<le> z" "z \<le> 2 ^ 53"
  shows "nearest (of_int z) = of_int z"
proof -
  let ?a = "of_int z :: rat"
  have apos: "0 < ?a" and a1: "1 \<le> ?a" using assms by simp_all
  have "?a \<le> of_int (2 ^ 53)" using assms(2) by (simp only: of_int_le_iff)
  then have a53: "?a \<le> 2 ^ 53" by simp
  define e where "e = ilog 2 ?a"
  have b: "2 powi e \<le> ?a" "?a < 2 powi (e + 1)" using ilog2_bounds [OF apos] by (simp_all add: e_def)
  have e0: "0 \<le> e" using a1 by (simp add: e_def ilog_def)
  have "(2 :: rat) powi e \<le> 2 powi 53" using b(1) a53 by simp
  then have e53: "e \<le> 53" by (intro power_int_le_imp_le_exp [of 2 e 53]) simp_all
  have u: "ulp ?a = 2 powi (e - 52)" using e0 by (simp add: ulp_def e_def [symmetric] max_def)
  show ?thesis
  proof (cases "e \<le> 52")
    case True
    define m where "m = nat (52 - e)"
    have "e - 52 = - int m" using True by (simp add: m_def)
    then have u': "ulp ?a = 1 / 2 ^ m" by (simp add: u power_int_minus_divide)
    have "?a / ulp ?a = of_int (z * 2 ^ m)" by (simp add: u')
    then have "roundHalfEven (?a / ulp ?a) = z * 2 ^ m" by (simp only: roundHalfEven_of_int)
    then show ?thesis by (simp add: nearest_def u')
  next
    case False
    with e53 have e: "e = 53" by simp
    have "(2 :: rat) ^ 53 \<le> ?a" using b(1) by (simp add: e)
    with a53 have aeq: "?a = 2 ^ 53" by simp
    have u': "ulp ?a = 2" by (simp add: u e)
    have "?a / 2 = of_int (2 ^ 52)" unfolding aeq by simp
    then have r: "roundHalfEven (?a / 2) = 2 ^ 52" by (simp only: roundHalfEven_of_int)
    have "nearest ?a = of_int (2 ^ 52) * 2" unfolding nearest_def u' r ..
    also have "\<dots> = ?a" unfolding aeq by simp
    finally show ?thesis .
  qed
qed

lemma fl_not_NaN [simp]: "fl q \<noteq> NaN"
  by (simp add: fl_def)

lemma fl_0 [simp]: "fl 0 = Fin 0"
  by (simp add: fl_def)

lemma fl_neg: "fl (- q) = jneg (fl q)"
  by (simp add: fl_def)

lemma fl_pos:
  assumes "0 < a"
  shows "fl a = (if 2 ^ 1024 \<le> nearest a then PInf else Fin (nearest a))"
  using assms by (simp add: fl_def)

lemma fl_cert:
  assumes "0 < a" "n \<le> 1074" "2 ^ 52 \<le> a * 2 ^ n" "a * 2 ^ n < 2 ^ 53"
    and "\<bar>a * 2 ^ n - of_int k\<bar> < 1 / 2"
  shows "fl a = Fin (of_int k / 2 ^ n)"
proof -
  have n: "nearest a = of_int k / 2 ^ n" using assms by (rule nearest_cert)
  have "of_int k < a * 2 ^ n + 1 / 2" using assms(5) by linarith
  also have "\<dots> < 2 ^ 53 + 1" using assms(4) by linarith
  finally have "(of_int k :: rat) < 2 ^ 1024" by simp
  then have "(of_int k :: rat) / 2 ^ n < 2 ^ 1024"
  proof -
    have "(1 :: rat) \<le> 2 ^ n" by simp
    show ?thesis
    proof (cases "(of_int k :: rat) < 0")
      case True
      then have "(of_int k :: rat) / 2 ^ n < 0" by (simp add: divide_neg_pos)
      then show ?thesis by simp
    next
      case False
      then have "(of_int k :: rat) / 2 ^ n \<le> of_int k / 1"
        by (intro divide_left_mono) simp_all
      with \<open>(of_int k :: rat) < 2 ^ 1024\<close> show ?thesis by simp
    qed
  qed
  then show ?thesis using assms(1) by (simp add: fl_pos n)
qed

lemma fl_of_int:
  assumes "\<bar>z\<bar> \<le> 2 ^ 53"
  shows "fl (of_int z) = Fin (of_int z)"
proof -
  have pos: "fl (of_int y) = Fin (of_int y)" if "1 \<le> y" "y \<le> 2 ^ 53" for y :: int
  proof -
    have n: "nearest (of_int y) = of_int y" using that by (rule nearest_of_int)
    have "(of_int y :: rat) \<le> of_int (2 ^ 53)" using that(2) by (simp only: of_int_le_iff)
    then have "(of_int y :: rat) < 2 ^ 1024" by simp
    moreover have "(0 :: rat) < of_int y" using that(1) by simp
    ultimately show ?thesis by (simp add: fl_pos n)
  qed
  consider "z = 0" | "1 \<le> z" | "1 \<le> - z" by linarith
  then show ?thesis
  proof cases
    case 1
    then show ?thesis by simp
  next
    case 2
    then show ?thesis using assms by (intro pos) simp_all
  next
    case 3
    then have "fl (of_int (- z)) = Fin (of_int (- z))" using assms by (intro pos) simp_all
    then have "jneg (fl (of_int z)) = Fin (- of_int z)" by (simp add: fl_neg)
    then show ?thesis by (cases "fl (of_int z)") simp_all
  qed
qed

lemma fl_numeral [simp]:
  "(numeral n :: int) \<le> 2 ^ 53 \<Longrightarrow> fl (numeral n) = Fin (numeral n)"
  using fl_of_int [of "numeral n"] by simp

lemma fl_neg_numeral [simp]:
  "(numeral n :: int) \<le> 2 ^ 53 \<Longrightarrow> fl (- numeral n) = Fin (- numeral n)"
  using fl_of_int [of "- numeral n"] by simp

lemma fl_1 [simp]: "fl 1 = Fin 1"
  using fl_of_int [of 1] by simp

lemma fl_mono:
  assumes "q \<le> q'"
  shows "jle (fl q) (fl q')"
proof -
  have pos: "jle (fl a) (fl b)" if "0 < a" "a \<le> b" for a b
  proof -
    have "nearest a \<le> nearest b" using that by (rule nearest_mono)
    moreover have "0 < b" using that by simp
    ultimately show ?thesis using that(1) by (simp add: fl_pos)
  qed
  have nonneg: "jle (Fin 0) (fl b)" if "0 < b" for b
    using that nearest_nonneg [OF that] by (simp add: fl_pos)
  have flip: "jle (jneg x) (jneg y)" if "jle y x" for x y
    using that by (cases x; cases y) simp_all
  have nonpos: "jle (fl b) (Fin 0)" if "b < 0" for b
  proof -
    have "jle (Fin 0) (fl (- b))" using that by (intro nonneg) simp
    then have "jle (jneg (fl (- b))) (jneg (Fin 0))" by (rule flip)
    then show ?thesis by (simp add: fl_neg) (cases "fl b"; simp)
  qed
  have trans0: "jle x y" if "jle x (Fin 0)" "jle (Fin 0) y" for x y
    using that by (cases x; cases y) simp_all
  consider "0 < q" | "q' < 0" | "q \<le> 0" "0 \<le> q'" by linarith
  then show ?thesis
  proof cases
    case 1
    then show ?thesis using assms by (rule pos)
  next
    case 2
    then have "jle (fl (- q')) (fl (- q))" using assms by (intro pos) simp_all
    then have "jle (jneg (fl (- q))) (jneg (fl (- q')))" by (rule flip)
    then show ?thesis by (simp add: fl_neg) (cases "fl q"; cases "fl q'"; simp)
  next
    case 3
    have "jle (fl q) (Fin 0)"
    proof (cases "q = 0")
      case True
      then show ?thesis by simp
    next
      case False
      with 3 show ?thesis by (intro nonpos) simp
    qed
    moreover have "jle (Fin 0) (fl q')"
    proof (cases "q' = 0")
      case True
      then show ?thesis by simp
    next
      case False
      with 3 show ?thesis by (intro nonneg) simp
    qed
    ultimately show ?thesis by (rule trans0)
  qed
qed

section \<open>Evaluating the model\<close>

lemma floor_rat_numeral [simp]:
  "\<lfloor>numeral a / numeral b :: rat\<rfloor> = numeral a div numeral b"
  using floor_divide_of_int_eq [of "numeral a" "numeral b", where ?'a = rat] by simp

lemma floor_rat_neg_numeral [simp]:
  "\<lfloor>- (numeral a / numeral b) :: rat\<rfloor> = - numeral a div numeral b"
  using floor_divide_of_int_eq [of "- numeral a" "numeral b", where ?'a = rat] by simp

lemma ceiling_rat_numeral [simp]:
  "\<lceil>numeral a / numeral b :: rat\<rceil> = - (- numeral a div numeral b)"
  using ceiling_divide_eq_div [of "numeral a" "numeral b", where ?'a = rat] by simp

lemma ceiling_rat_neg_numeral [simp]:
  "\<lceil>- (numeral a / numeral b) :: rat\<rceil> = - (numeral a div numeral b)"
  using ceiling_divide_eq_div [of "- numeral a" "numeral b", where ?'a = rat] by simp

lemma floor_rat_one_numeral [simp]:
  "\<lfloor>1 / numeral b :: rat\<rfloor> = 1 div numeral b"
  using floor_divide_of_int_eq [of 1 "numeral b", where ?'a = rat] by simp

lemma floor_rat_neg_one_numeral [simp]:
  "\<lfloor>- (1 / numeral b) :: rat\<rfloor> = - 1 div numeral b"
  using floor_divide_of_int_eq [of "- 1" "numeral b", where ?'a = rat] by simp

lemma ceiling_rat_one_numeral [simp]:
  "\<lceil>1 / numeral b :: rat\<rceil> = - (- 1 div numeral b)"
  using ceiling_divide_eq_div [of 1 "numeral b", where ?'a = rat] by simp

lemma ceiling_rat_neg_one_numeral [simp]:
  "\<lceil>- (1 / numeral b) :: rat\<rceil> = - (1 div numeral b)"
  using ceiling_divide_eq_div [of "- 1" "numeral b", where ?'a = rat] by simp

lemma fl_neg_1 [simp]: "fl (- 1) = Fin (- 1)"
  using fl_of_int [of "- 1"] by simp

lemma decimalDigits_numeral:
  "decimalDigits (numeral n) =
     (if (numeral n :: nat) < 10 then [digitChar (numeral n)]
      else decimalDigits (numeral n div 10) @ [digitChar (numeral n mod 10)])"
  by (rule decimalDigits.simps)

lemma decimalDigits_0: "decimalDigits 0 = ''0''"
  by (simp add: decimalDigits.simps digitChar_def)

lemma decimalDigits_1: "decimalDigits 1 = ''1''"
  by (simp add: decimalDigits.simps digitChar_def)

lemma decimalDigits_Suc_0: "decimalDigits (Suc 0) = ''1''"
  by (simp add: decimalDigits.simps digitChar_def)

lemma rightTruncate_2:
  "rightTruncate x 2 = drop (length (toString x)) (''00'' @ toString x)"
  by (simp add: rightTruncate_def sliceLast_def numeral_2_eq_2)

lemmas print_simps =
  positiveToString_def decimalDigits_numeral decimalDigits_0 decimalDigits_1
  decimalDigits_Suc_0 digitChar_def
  rightTruncate_2 pennies_def pounds_def truncate_rat_def jsub_def

lemma jle_NaN_right [simp]: "jle x NaN = False"
  by (cases x) simp_all

lemma jlt_NaN_right [simp]: "jlt x NaN = False"
  by (cases x) simp_all

lemma element_simps [simp]:
  "classList_add ''d-none'' hiddenElement = hiddenElement"
  "displayError hiddenElement msg = \<lparr>textContent = msg, classList = []\<rparr>"
  by (simp_all add: classList_add_def displayError_def classList_remove_def hiddenElement_def)

subsection \<open>Rounded values\<close>

text \<open>
  The values that the examples below multiply and divide, each rounded to binary64.
  A value \<open>a\<close> with \<open>2\<^sup>5\<^sup>2 \<le> a \<times> 2\<^sup>n < 2\<^sup>5\<^sup>3\<close> rounds to \<open>k / 2\<^sup>n\<close> for the integer \<open>k\<close>
  nearest to \<open>a \<times> 2\<^sup>n\<close> (lemma \<open>fl_cert\<close>); each lemma names its \<open>n\<close> and \<open>k\<close>.
\<close>

lemma fl_one_twentieth:
  "fl (1 / 20) =
     Fin (3602879701896397 / 72057594037927936)"
  using fl_cert [of "1 / 20"
      57 7205759403792794]
  by simp

lemma fl_half:
  "fl (1 / 2) =
     Fin (1 / 2)"
  using fl_cert [of "1 / 2"
      53 4503599627370496]
  by simp

lemma fl_9000_99:
  "fl (900099 / 100) =
     Fin (4948346583247749 / 549755813888)"
  using fl_cert [of "900099 / 100"
      39 4948346583247749]
  by simp

lemma fl_times_100_9000_99:
  "fl (123708664581193725 / 137438953472) =
     Fin 900099"
  using fl_cert [of "123708664581193725 / 137438953472"
      33 7731791536324608]
  by simp

lemma fl_fee_9000_99:
  "fl (3242948416797245043303 / 72057594037927936) =
     Fin (6185433229059687 / 137438953472)"
  using fl_cert [of "3242948416797245043303 / 72057594037927936"
      37 6185433229059687]
  by simp

lemma fl_9000_75:
  "fl (36003 / 4) =
     Fin (36003 / 4)"
  using fl_cert [of "36003 / 4"
      39 4948214641852416]
  by simp

lemma fl_fee_1000:
  "fl (11258999068426240625 / 2251799813685248) =
     Fin 5000"
  using fl_cert [of "11258999068426240625 / 2251799813685248"
      40 5497558138880000]
  by simp

lemma fl_14_percent:
  "fl (7 / 50) =
     Fin (1261007895663739 / 9007199254740992)"
  using fl_cert [of "7 / 50"
      55 5044031582654956]
  by simp

lemma fl_14_percent_of_2000:
  "fl (3940649673949184375 / 140737488355328) =
     Fin (7696581394432001 / 274877906944)"
  using fl_cert [of "3940649673949184375 / 140737488355328"
      38 7696581394432001]
  by simp

lemma fl_2_20:
  "fl (11 / 5) =
     Fin (2476979795053773 / 1125899906842624)"
  using fl_cert [of "11 / 5"
      51 4953959590107546]
  by simp

lemma fl_times_100_2_20:
  "fl (61924494876344325 / 281474976710656) =
     Fin (7740561859543041 / 35184372088832)"
  using fl_cert [of "61924494876344325 / 281474976710656"
      45 7740561859543041]
  by simp

lemma fl_fee_2_20:
  "fl (27888313205021051983919544323277 / 2535301200456458802993406410752) =
     Fin (6192449487634433 / 562949953421312)"
  using fl_cert [of "27888313205021051983919544323277 / 2535301200456458802993406410752"
      49 6192449487634433]
  by simp

lemma fl_fee_50:
  "fl (90071992547409925 / 36028797018963968) =
     Fin (5 / 2)"
  using fl_cert [of "90071992547409925 / 36028797018963968"
      51 5629499534213120]
  by simp

section \<open>The ways through \<open>calculate\<close>\<close>

lemma calculate_borrow_fails:
  assumes "\<not> amountCondition b (Some (Fin 0)) (Some (Fin 9000))"
  shows "calculate b s p (Some ef) =
    Inr (ef\<lparr>borrowValidationFail :=
               map_option (\<lambda>e. displayError e ''Amount to borrow must be a number between 0 and 9000'')
                 (borrowValidationFail ef)\<rparr>, None)"
  using assms by (simp add: calculate_def runValidation_def)

lemma calculate_salary_fails:
  assumes "amountCondition b (Some (Fin 0)) (Some (Fin 9000))"
    and "\<not> amountCondition s (Some (Fin 0)) None"
  shows "calculate b s p (Some ef) =
    Inr (ef\<lparr>borrowValidationFail := map_option (classList_add ''d-none'') (borrowValidationFail ef),
             salaryValidationFail :=
               map_option (\<lambda>e. displayError e ''Expected monthly salary must be at least 0'')
                 (salaryValidationFail ef)\<rparr>, None)"
  using assms by (simp add: calculate_def runValidation_def)

lemma calculate_repay_fails:
  assumes "amountCondition b (Some (Fin 0)) (Some (Fin 9000))"
    and "amountCondition s (Some (Fin 0)) None"
    and "\<not> amountCondition p (Some (Fin 10)) (Some (Fin 100))"
  shows "calculate b s p (Some ef) =
    Inr (ef\<lparr>borrowValidationFail := map_option (classList_add ''d-none'') (borrowValidationFail ef),
             salaryValidationFail := map_option (classList_add ''d-none'') (salaryValidationFail ef),
             repayValidationFail :=
               map_option (\<lambda>e. displayError e ''Amount to repay must be between 10% and 100%'')
                 (repayValidationFail ef)\<rparr>, None)"
  using assms by (simp add: calculate_def runValidation_def)

lemma calculate_passes:
  assumes "amountCondition b (Some (Fin 0)) (Some (Fin 9000))"
    and "amountCondition s (Some (Fin 0)) None"
    and "amountCondition p (Some (Fin 10)) (Some (Fin 100))"
  shows "calculate b s p (Some ef) =
    Inr (ef\<lparr>borrowValidationFail := map_option (classList_add ''d-none'') (borrowValidationFail ef),
             salaryValidationFail := map_option (classList_add ''d-none'') (salaryValidationFail ef),
             repayValidationFail := map_option (classList_add ''d-none'') (repayValidationFail ef)\<rparr>,
         Some (computeFeeData b s p))"
  using assms by (simp add: calculate_def runValidation_def)

lemma calculate_no_result:
  assumes "\<not> (amountCondition b (Some (Fin 0)) (Some (Fin 9000))
            \<and> amountCondition s (Some (Fin 0)) None
            \<and> amountCondition p (Some (Fin 10)) (Some (Fin 100)))"
  shows "\<exists>ef'. calculate b s p (Some ef) = Inr (ef', None)"
proof (cases "amountCondition b (Some (Fin 0)) (Some (Fin 9000))")
  case False
  then show ?thesis by (simp add: calculate_borrow_fails)
next
  case borrow: True
  show ?thesis
  proof (cases "amountCondition s (Some (Fin 0)) None")
    case False
    with borrow show ?thesis by (simp add: calculate_salary_fails)
  next
    case True
    with borrow assms show ?thesis by (simp add: calculate_repay_fails)
  qed
qed

section \<open>Validation\<close>

lemma amountCondition_NaN:
  "parseInt t = NaN \<Longrightarrow> \<not> amountCondition t lo hi"
  by (simp add: amountCondition_def jge_def)

text \<open>A text with no decimal digit in it has no number for \<open>parseInt\<close> to find.\<close>

lemma takeSign_subset: "set (snd (takeSign S)) \<subseteq> set S"
  by (cases S) auto

lemma no_digit_parseInt_NaN:
  assumes "\<forall>c \<in> set t. \<not> isDecimalDigit c"
  shows "parseInt t = NaN"
proof -
  define S where "S = snd (takeSign (dropWhile isWhiteSpace t))"
  have sub: "set S \<subseteq> set t"
    unfolding S_def using takeSign_subset set_dropWhileD by fastforce
  have nodigit: "\<forall>c \<in> set S. \<not> isDecimalDigit c" using assms sub by blast
  have "isDecimalDigit (CHR ''0'')" by (simp add: isDecimalDigit_def)
  then have "CHR ''0'' \<notin> set S" using nodigit by blast
  then have nohex: "take 2 S \<noteq> ''0x''" "take 2 S \<noteq> ''0X''"
    by (cases S; auto)+
  have "takeWhile isDecimalDigit S = []"
    using nodigit by (cases S) simp_all
  then show ?thesis
    using nohex unfolding S_def
    by (cases "takeSign (dropWhile isWhiteSpace t)") (simp add: parseInt_def)
qed

text \<open>
  Claim C7.  A text in which \<open>parseInt\<close> finds no number (the empty text, a text
  without digits: lemma \<open>no_digit_parseInt_NaN\<close>) fails the range check of each of the
  three fields, whatever the bounds: the comparison with \<open>NaN\<close> is false.  A call of
  \<open>calculate\<close> with such a text in any of the three fields returns normally, with no
  result object.
\<close>

theorem not_a_number_fails_validation:
  assumes "parseInt t = NaN"
  shows "\<not> amountCondition t (Some (Fin 0)) (Some (Fin 9000))
       \<and> \<not> amountCondition t (Some (Fin 0)) None
       \<and> \<not> amountCondition t (Some (Fin 10)) (Some (Fin 100))
       \<and> (\<exists>ef'. calculate t s p (Some ef) = Inr (ef', None))
       \<and> (\<exists>ef'. calculate b t p (Some ef) = Inr (ef', None))
       \<and> (\<exists>ef'. calculate b s t (Some ef) = Inr (ef', None))"
  using assms by (simp add: amountCondition_NaN calculate_no_result)

theorem not_a_number_fails_validation_witness:
  "parseInt ''abc'' = NaN
   \<and> \<not> amountCondition ''abc'' (Some (Fin 0)) (Some (Fin 9000))
   \<and> \<not> amountCondition ''abc'' (Some (Fin 0)) None
   \<and> \<not> amountCondition ''abc'' (Some (Fin 10)) (Some (Fin 100))
   \<and> (\<exists>ef'. calculate ''abc'' ''2000'' ''50'' (Some initialErrors) = Inr (ef', None))
   \<and> (\<exists>ef'. calculate ''1000'' ''abc'' ''50'' (Some initialErrors) = Inr (ef', None))
   \<and> (\<exists>ef'. calculate ''1000'' ''2000'' ''abc'' (Some initialErrors) = Inr (ef', None))"
proof -
  have nan: "parseInt ''abc'' = NaN" by (simp add: parse_defs)
  show ?thesis
    using nan not_a_number_fails_validation
      [OF nan, of "''2000''" "''50''" initialErrors "''1000''"]
    by simp
qed

lemma fails_9001: "\<not> amountCondition ''9001'' (Some (Fin 0)) (Some (Fin 9000))"
  by (simp add: amountCondition_def jge_def parse_defs)

lemma passes_2000: "amountCondition ''2000'' (Some (Fin 0)) None"
  by (simp add: amountCondition_def jge_def parse_defs)

text \<open>
  Claim C1.  The three validations are joined by \<^verbatim>\<open>&&\<close>, so a failing borrow check
  ends the chain: with borrow \<^verbatim>\<open>9001\<close>, salary \<^verbatim>\<open>-1\<close> and percentage \<^verbatim>\<open>5\<close>, all three out of
  range, only the borrow error is shown; the salary and percentage errors stay hidden
  although their checks would fail.
\<close>

theorem only_first_failure_is_flagged:
  "calculate ''9001'' ''-1'' ''5'' (Some initialErrors) =
     Inr (initialErrors
            \<lparr>borrowValidationFail :=
               Some \<lparr>textContent = ''Amount to borrow must be a number between 0 and 9000'',
                     classList = []\<rparr>\<rparr>,
          None)
   \<and> salaryValidationFail initialErrors = Some hiddenElement
   \<and> repayValidationFail initialErrors = Some hiddenElement
   \<and> isHidden hiddenElement
   \<and> \<not> amountCondition ''-1'' (Some (Fin 0)) None
   \<and> \<not> amountCondition ''5'' (Some (Fin 10)) (Some (Fin 100))"
proof -
  have borrow: "\<not> amountCondition ''9001'' (Some (Fin 0)) (Some (Fin 9000))"
    by (simp add: amountCondition_def jge_def parse_defs)
  have salary: "\<not> amountCondition ''-1'' (Some (Fin 0)) None"
    by (simp add: amountCondition_def jge_def parse_defs)
  have repay: "\<not> amountCondition ''5'' (Some (Fin 10)) (Some (Fin 100))"
    by (simp add: amountCondition_def jge_def parse_defs)
  show ?thesis
    using salary repay
    by (simp add: calculate_borrow_fails [OF borrow] initialErrors_def isHidden_def
        hiddenElement_def displayError_def classList_remove_def)
qed

text \<open>
  The same chain leaves an error of an earlier call in place: when the borrow check
  fails, a salary error that is showing stays shown although the salary is now valid.
\<close>

lemma earlier_salary_error_stays_shown:
  assumes "salaryValidationFail ef = Some e" "\<not> isHidden e"
  shows "\<exists>ef'. calculate ''9001'' ''2000'' ''50'' (Some ef) = Inr (ef', None)
           \<and> salaryValidationFail ef' = Some e
           \<and> amountCondition ''2000'' (Some (Fin 0)) None"
  using assms by (simp add: calculate_borrow_fails [OF fails_9001] passes_2000)

subsection \<open>The range check and the value of the text\<close>

lemma foldl_digits_bound:
  assumes "\<forall>c \<in> set ds. isDecimalDigit c"
  shows "foldl (\<lambda>acc c. acc * 10 + digitValue c) a ds < (a + 1) * 10 ^ length ds"
  using assms
proof (induction ds arbitrary: a)
  case Nil
  then show ?case by simp
next
  case (Cons d ds)
  have "digitValue d \<le> 9" using Cons.prems by (auto simp: digitValue_def isDecimalDigit_def)
  then have "a * 10 + digitValue d + 1 \<le> (a + 1) * 10" by simp
  then have step: "(a * 10 + digitValue d + 1) * 10 ^ length ds \<le> (a + 1) * 10 * 10 ^ length ds"
    by (rule mult_le_mono1)
  have "foldl (\<lambda>acc c. acc * 10 + digitValue c) a (d # ds)
      = foldl (\<lambda>acc c. acc * 10 + digitValue c) (a * 10 + digitValue d) ds"
    by simp
  also have "\<dots> < (a * 10 + digitValue d + 1) * 10 ^ length ds"
    using Cons.prems by (intro Cons.IH) simp
  also note step
  also have "(a + 1) * 10 * 10 ^ length ds = (a + 1) * 10 ^ length (d # ds)"
    by (simp add: algebra_simps)
  finally show ?case .
qed

lemma digitsValue_bound:
  assumes "\<forall>c \<in> set ds. isDecimalDigit c"
  shows "digitsValue 10 ds < 10 ^ length ds"
  using foldl_digits_bound [OF assms, of 0] by (simp add: digitsValue_def)

lemma truncate_decimalValue:
  assumes "\<forall>c \<in> set fp. isDecimalDigit c"
  shows "truncate_rat (decimalValue sg ip fp) =
           (if sg = ''-'' then - int (digitsValue 10 ip) else int (digitsValue 10 ip))"
proof -
  define N where "N = digitsValue 10 ip"
  define f :: rat where "f = of_nat (digitsValue 10 fp) / 10 ^ length fp"
  have "(of_nat (digitsValue 10 fp) :: rat) < of_nat (10 ^ length fp)"
    using digitsValue_bound [OF assms] by (simp only: of_nat_less_iff)
  then have f: "0 \<le> f" "f < 1" by (simp_all add: f_def)
  have fl: "\<lfloor>of_nat N + f\<rfloor> = int N" using f by (simp add: floor_eq_iff)
  show ?thesis
  proof (cases "sg = ''-''")
    case False
    have "0 \<le> of_nat N + f" using f by simp
    then show ?thesis using False fl
      by (simp add: decimalValue_def truncate_rat_def N_def [symmetric] f_def [symmetric])
  next
    case True
    have "\<lceil>- (of_nat N + f)\<rceil> = - int N" using fl by (simp add: ceiling_def)
    moreover have "\<lfloor>- (of_nat N + f)\<rfloor> = 0" if "0 \<le> - (of_nat N + f)"
    proof -
      have "of_nat N + f = 0" using that f by simp
      then show ?thesis by simp
    qed
    moreover have "int N = 0" if "0 \<le> - (of_nat N + f)"
    proof -
      have "(of_nat N :: rat) \<le> 0" using that f by linarith
      then show ?thesis by simp
    qed
    ultimately show ?thesis using True
      by (simp add: decimalValue_def truncate_rat_def N_def [symmetric] f_def [symmetric])
  qed
qed

text \<open>
  Rounding keeps an integer on its side of 0 and of 9000, so the check on the rounded
  integer is the check on the integer.
\<close>

lemma int_range_check:
  "jge (fl (of_int z)) (Fin 0) \<and> jle (fl (of_int z)) (Fin 9000) \<longleftrightarrow> 0 \<le> z \<and> z \<le> 9000"
proof (cases "0 \<le> z \<and> z \<le> 9000")
  case True
  then have "\<bar>z\<bar> \<le> 2 ^ 53" by simp
  then have "fl (of_int z) = Fin (of_int z)" by (rule fl_of_int)
  then show ?thesis using True by (simp add: jge_def)
next
  case False
  then consider "z \<le> - 1" | "9001 \<le> z" by linarith
  then have "\<not> (jge (fl (of_int z)) (Fin 0) \<and> jle (fl (of_int z)) (Fin 9000))"
  proof cases
    case 1
    then have "(of_int z :: rat) \<le> - 1" by (metis of_int_le_iff of_int_minus of_int_1)
    then have "jle (fl (of_int z)) (fl (- 1))" by (rule fl_mono)
    then have "\<not> jle (Fin 0) (fl (of_int z))" by (cases "fl (of_int z)") simp_all
    then show ?thesis by (simp add: jge_def)
  next
    case 2
    then have "(9001 :: rat) \<le> of_int z" by (metis of_int_le_iff of_int_numeral)
    then have "jle (fl 9001) (fl (of_int z))" by (rule fl_mono)
    then have "\<not> jle (fl (of_int z)) (Fin 9000)" by (cases "fl (of_int z)") simp_all
    then show ?thesis by simp
  qed
  with False show ?thesis by blast
qed

text \<open>What \<open>parseInt\<close> reads from a signed run of digits and whatever follows it.\<close>

lemma parseInt_signed_digits:
  assumes sg: "sg = [] \<or> sg = ''+'' \<or> sg = ''-''"
    and ip: "ip \<noteq> []" "\<forall>c \<in> set ip. isDecimalDigit c"
    and rest: "rest = [] \<or> hd rest = CHR ''.''"
  shows "parseInt (sg @ ip @ rest) =
           fl (of_int (if sg = ''-'' then - int (digitsValue 10 ip) else int (digitsValue 10 ip)))"
proof -
  obtain d ds where d: "ip = d # ds" using ip(1) by (cases ip) auto
  have dd: "isDecimalDigit d" using ip(2) d by simp
  have notws: "\<not> isWhiteSpace d" "d \<noteq> CHR ''-''" "d \<noteq> CHR ''+''"
    using dd by (auto simp: isDecimalDigit_def isWhiteSpace_def)
  have sign: "takeSign (dropWhile isWhiteSpace (sg @ ip @ rest)) = (sg = ''-'', ip @ rest)"
    using sg notws by (auto simp: d isWhiteSpace_def)
  have notdigit: "\<not> isDecimalDigit (CHR ''.'')" "\<not> isDecimalDigit (CHR ''x'')"
    "\<not> isDecimalDigit (CHR ''X'')"
    by (simp_all add: isDecimalDigit_def)
  have second: "take 2 (ip @ rest) \<noteq> [c, CHR ''x'']" "take 2 (ip @ rest) \<noteq> [c, CHR ''X'']" for c
  proof -
    have "isDecimalDigit e \<or> e = CHR ''.''" if "take 2 (ip @ rest) = [c, e]" for e
    proof (cases ds)
      case Nil
      with that d rest show ?thesis by (cases rest) auto
    next
      case (Cons e' es)
      with that d ip(2) show ?thesis by auto
    qed
    then show "take 2 (ip @ rest) \<noteq> [c, CHR ''x'']" "take 2 (ip @ rest) \<noteq> [c, CHR ''X'']"
      using notdigit by auto
  qed
  have nohex: "\<not> (take 2 (ip @ rest) = ''0x'' \<or> take 2 (ip @ rest) = ''0X'')"
    using second by blast
  have digits: "takeWhile isDecimalDigit (ip @ rest) = ip"
  proof (cases rest)
    case Nil
    then show ?thesis using ip(2) by simp
  next
    case (Cons r rs)
    with rest have "r = CHR ''.''" by simp
    then show ?thesis using ip(2) Cons notdigit by (simp add: takeWhile_append2)
  qed
  show ?thesis
    using nohex ip(1) by (simp add: parseInt_def sign digits)
qed

text \<open>
  Claim C4, as the code has it.  For a borrow text made of an optional sign, one or more
  digits and, optionally, a point followed by digits, the validation passes exactly when
  the value of the text with its fraction dropped lies between 0 and 9000.
\<close>

theorem borrow_validation_truncates:
  assumes "sg = [] \<or> sg = ''+'' \<or> sg = ''-''"
    and "ip \<noteq> []" "\<forall>c \<in> set ip. isDecimalDigit c"
    and "\<forall>c \<in> set fp. isDecimalDigit c"
  shows "(amountCondition (sg @ ip @ ''.'' @ fp) (Some (Fin 0)) (Some (Fin 9000))
           \<longleftrightarrow> 0 \<le> truncate_rat (decimalValue sg ip fp)
               \<and> truncate_rat (decimalValue sg ip fp) \<le> 9000)
       \<and> (amountCondition (sg @ ip) (Some (Fin 0)) (Some (Fin 9000))
           \<longleftrightarrow> 0 \<le> truncate_rat (decimalValue sg ip [])
               \<and> truncate_rat (decimalValue sg ip []) \<le> 9000)"
proof -
  let ?z = "if sg = ''-'' then - int (digitsValue 10 ip) else int (digitsValue 10 ip)"
  have "parseInt (sg @ ip @ ''.'' @ fp) = fl (of_int ?z)"
    using assms(1-3) by (intro parseInt_signed_digits) simp_all
  then have with_fraction:
    "amountCondition (sg @ ip @ ''.'' @ fp) (Some (Fin 0)) (Some (Fin 9000))
       \<longleftrightarrow> 0 \<le> ?z \<and> ?z \<le> 9000"
    using int_range_check [of ?z] by (simp add: amountCondition_def)
  have "parseInt (sg @ ip @ []) = fl (of_int ?z)"
    using assms(1-3) by (intro parseInt_signed_digits) simp_all
  then have without_fraction:
    "amountCondition (sg @ ip) (Some (Fin 0)) (Some (Fin 9000)) \<longleftrightarrow> 0 \<le> ?z \<and> ?z \<le> 9000"
    using int_range_check [of ?z] by (simp add: amountCondition_def)
  have t1: "truncate_rat (decimalValue sg ip fp) = ?z"
    using assms(4) by (rule truncate_decimalValue)
  have t2: "truncate_rat (decimalValue sg ip []) = ?z"
    by (rule truncate_decimalValue) simp
  show ?thesis unfolding t1 t2 using with_fraction without_fraction by blast
qed

theorem borrow_validation_truncates_witness:
  "amountCondition ''9000.75'' (Some (Fin 0)) (Some (Fin 9000))
   \<and> decimalValue [] ''9000'' ''75'' = 36003 / 4
   \<and> truncate_rat (decimalValue [] ''9000'' ''75'') = 9000
   \<and> \<not> amountCondition ''9001'' (Some (Fin 0)) (Some (Fin 9000))
   \<and> truncate_rat (decimalValue [] ''9001'' []) = 9001"
proof -
  have digits: "\<forall>c \<in> set ''9000''. isDecimalDigit c" "\<forall>c \<in> set ''75''. isDecimalDigit c"
    "\<forall>c \<in> set ''9001''. isDecimalDigit c"
    by (simp_all add: isDecimalDigit_def)
  have v: "decimalValue [] ''9000'' ''75'' = 36003 / 4" "decimalValue [] ''9001'' [] = 9001"
    by (simp_all add: decimalValue_def digitsValue_def digitValue_def isDecimalDigit_def)
  have t: "truncate_rat (36003 / 4) = 9000" "truncate_rat 9001 = 9001"
    by (simp_all add: truncate_rat_def)
  show ?thesis
    using borrow_validation_truncates [of "[]" "''9000''" "''75''"]
      borrow_validation_truncates [of "[]" "''9001''" "[]"] digits
    by (simp add: v t)
qed

text \<open>
  Claim C4, as it is stated, with the nearest integer in place of the truncation: the
  text \<^verbatim>\<open>9000.75\<close> passes the validation, and its value, which \<open>parseFloat\<close> reads
  exactly, rounds to 9001.
\<close>

theorem borrow_validation_does_not_round:
  "amountCondition ''9000.75'' (Some (Fin 0)) (Some (Fin 9000))
   \<and> parseFloat ''9000.75'' = Fin (36003 / 4)
   \<and> decimalValue [] ''9000'' ''75'' = 36003 / 4
   \<and> round (36003 / 4 :: rat) = 9001
   \<and> \<not> (0 \<le> round (36003 / 4 :: rat) \<and> round (36003 / 4 :: rat) \<le> 9000)"
proof -
  have "amountCondition ''9000.75'' (Some (Fin 0)) (Some (Fin 9000))"
    by (simp add: amountCondition_def jge_def parse_defs)
  moreover have "parseFloat ''9000.75'' = Fin (36003 / 4)"
    by (simp add: parse_defs fl_9000_75)
  moreover have "decimalValue [] ''9000'' ''75'' = 36003 / 4"
    by (simp add: decimalValue_def digitsValue_def digitValue_def isDecimalDigit_def)
  moreover have "round (36003 / 4 :: rat) = 9001"
    by (simp add: round_def)
  ultimately show ?thesis by simp
qed

text \<open>
  Texts of other forms are left out of the statement above, because \<open>parseInt\<close> and
  the value of the text part ways on them: \<^verbatim>\<open>.5\<close> has no digit where \<open>parseInt\<close> looks
  for one and fails the check, and of \<^verbatim>\<open>1e4\<close> it reads the \<open>1\<close> only, so that ten
  thousand passes.
\<close>

lemma texts_of_other_forms:
  "\<not> amountCondition ''.5'' (Some (Fin 0)) (Some (Fin 9000))
   \<and> parseFloat ''.5'' = Fin (1 / 2)
   \<and> amountCondition ''1e4'' (Some (Fin 0)) (Some (Fin 9000))
   \<and> parseFloat ''1e4'' = Fin 10000"
  by (simp add: amountCondition_def jge_def parse_defs fl_half)

section \<open>The total cost\<close>

text \<open>
  Where \<open>parseInt\<close> finds a number, the text starts (after white space and sign) with
  a decimal digit, and \<open>parseFloat\<close> finds a number too.
\<close>

lemma parseInt_number_starts_with_digit:
  assumes "parseInt t \<noteq> NaN"
  shows "\<exists>d ds. snd (takeSign (dropWhile isWhiteSpace t)) = d # ds \<and> isDecimalDigit d"
proof -
  obtain neg S where S: "takeSign (dropWhile isWhiteSpace t) = (neg, S)"
    by (cases "takeSign (dropWhile isWhiteSpace t)")
  show ?thesis
  proof (cases "take 2 S = ''0x'' \<or> take 2 S = ''0X''")
    case True
    then obtain ds where "S = CHR ''0'' # ds" by (cases S) auto
    then show ?thesis by (simp add: S isDecimalDigit_def)
  next
    case False
    with assms have "takeWhile isDecimalDigit S \<noteq> []"
      by (auto simp: parseInt_def S split: if_splits)
    then obtain d ds where "S = d # ds" "isDecimalDigit d"
      by (cases S) (auto split: if_splits)
    then show ?thesis by (simp add: S)
  qed
qed

lemma parseFloat_not_NaN:
  assumes "parseInt t \<noteq> NaN"
  shows "parseFloat t \<noteq> NaN"
proof -
  obtain neg S where S: "takeSign (dropWhile isWhiteSpace t) = (neg, S)"
    by (cases "takeSign (dropWhile isWhiteSpace t)")
  from parseInt_number_starts_with_digit [OF assms]
  obtain d ds where d: "S = d # ds" "isDecimalDigit d" by (auto simp: S)
  have "d \<noteq> CHR ''I''" using d(2) by (auto simp: isDecimalDigit_def)
  then have "take 8 S \<noteq> ''Infinity''" by (simp add: d(1))
  moreover have "takeWhile isDecimalDigit S \<noteq> []" by (simp add: d)
  ultimately show ?thesis by (simp add: parseFloat_def S Let_def)
qed

lemma amountCondition_number:
  "amountCondition t lo hi \<Longrightarrow> parseInt t \<noteq> NaN"
  using amountCondition_NaN by blast

lemma jmul_100_not_NaN: "x \<noteq> NaN \<Longrightarrow> jmul (Fin 100) x \<noteq> NaN"
  by (cases x) (simp_all add: signedInf_def)

lemma amountToBorrow_not_NaN:
  "amountCondition b lo hi \<Longrightarrow> amountToBorrow b \<noteq> NaN"
  unfolding amountToBorrow_def
  by (intro jmul_100_not_NaN parseFloat_not_NaN amountCondition_number)

lemma jle_or_jgt: "x \<noteq> NaN \<Longrightarrow> jle x (Fin c) \<or> jgt x (Fin c)"
  by (cases x) (auto simp: jgt_def)

lemma jgt_trans_numeral:
  "jgt x (Fin c) \<Longrightarrow> d \<le> c \<Longrightarrow> jgt x (Fin d)"
  by (cases x) (auto simp: jgt_def)

lemma jle_not_jgt: "jle x (Fin c) \<Longrightarrow> \<not> jgt x (Fin c)"
  by (cases x) (auto simp: jgt_def)

lemma totalCost_cases:
  "totalCost b =
     (if jgt (amountToBorrow b) (Fin 720000) then Fin 900000
      else if jgt (amountToBorrow b) (Fin 640000) then Fin 850000
      else Fin 800000)"
  using jgt_trans_numeral [of "amountToBorrow b" 720000 640000]
  by (auto simp: totalCost_def)

lemma money_800000 [simp]:
  "toString (pounds (Fin 800000)) = ''8000''" "rightTruncate (pennies (Fin 800000)) 2 = ''00''"
  by (simp_all add: print_simps)

lemma money_850000 [simp]:
  "toString (pounds (Fin 850000)) = ''8500''" "rightTruncate (pennies (Fin 850000)) 2 = ''00''"
  by (simp_all add: print_simps)

lemma money_900000 [simp]:
  "toString (pounds (Fin 900000)) = ''9000''" "rightTruncate (pennies (Fin 900000)) 2 = ''00''"
  by (simp_all add: print_simps)

lemma passes_6500: "amountCondition ''6500'' (Some (Fin 0)) (Some (Fin 9000))"
  by (simp add: amountCondition_def jge_def parse_defs)

lemma passes_50: "amountCondition ''50'' (Some (Fin 10)) (Some (Fin 100))"
  by (simp add: amountCondition_def jge_def parse_defs)

lemma amountToBorrow_6500: "amountToBorrow ''6500'' = Fin 650000"
  by (simp add: amountToBorrow_def parse_defs)

text \<open>
  Claim C2.  For texts that pass the three validations, the total cost is 800000 pence
  plus 50000 when the amount to borrow (in pence, as the calculation reads it) is above
  640000 and a further 50000 when it is above 720000; the amount is a number, so one of
  \<open>\<le> 640000\<close> and \<open>> 640000\<close> holds.  The result object carries the total split into
  pounds and pennies.
\<close>

theorem total_cost_stacks_surcharges:
  assumes "amountCondition b (Some (Fin 0)) (Some (Fin 9000))"
    and "amountCondition s (Some (Fin 0)) None"
    and "amountCondition p (Some (Fin 10)) (Some (Fin 100))"
  shows "totalCost b =
           Fin (800000 + (if jgt (amountToBorrow b) (Fin 640000) then 50000 else 0)
                       + (if jgt (amountToBorrow b) (Fin 720000) then 50000 else 0))
       \<and> (jle (amountToBorrow b) (Fin 640000) \<or> jgt (amountToBorrow b) (Fin 640000))
       \<and> (jle (amountToBorrow b) (Fin 640000) \<longrightarrow> totalCost b = Fin 800000)
       \<and> (jgt (amountToBorrow b) (Fin 640000) \<and> jle (amountToBorrow b) (Fin 720000)
            \<longrightarrow> totalCost b = Fin 850000)
       \<and> (jgt (amountToBorrow b) (Fin 720000) \<longrightarrow> totalCost b = Fin 900000)
       \<and> (\<exists>ef' r. calculate b s p (Some ef) = Inr (ef', Some r)
            \<and> totalCostPounds r = toString (pounds (totalCost b))
            \<and> totalCostPennies r = ''00'')"
proof -
  have number: "amountToBorrow b \<noteq> NaN" using assms(1) by (rule amountToBorrow_not_NaN)
  have formula: "totalCost b =
           Fin (800000 + (if jgt (amountToBorrow b) (Fin 640000) then 50000 else 0)
                       + (if jgt (amountToBorrow b) (Fin 720000) then 50000 else 0))"
    using jgt_trans_numeral [of "amountToBorrow b" 720000 640000]
    by (auto simp: totalCost_cases)
  have low: "jle (amountToBorrow b) (Fin 640000) \<longrightarrow> totalCost b = Fin 800000"
    using jgt_trans_numeral [of "amountToBorrow b" 720000 640000]
    by (auto simp: totalCost_cases dest: jle_not_jgt)
  have mid: "jgt (amountToBorrow b) (Fin 640000) \<and> jle (amountToBorrow b) (Fin 720000)
            \<longrightarrow> totalCost b = Fin 850000"
    by (auto simp: totalCost_cases dest: jle_not_jgt)
  have high: "jgt (amountToBorrow b) (Fin 720000) \<longrightarrow> totalCost b = Fin 900000"
    by (simp add: totalCost_cases)
  have pennies: "rightTruncate (pennies (totalCost b)) 2 = ''00''"
    by (simp add: totalCost_cases)
  have result: "\<exists>ef' r. calculate b s p (Some ef) = Inr (ef', Some r)
            \<and> totalCostPounds r = toString (pounds (totalCost b))
            \<and> totalCostPennies r = ''00''"
    using pennies by (simp add: calculate_passes [OF assms] computeFeeData_def)
  show ?thesis
    using formula jle_or_jgt [OF number, of 640000] low mid high result by blast
qed

theorem total_cost_stacks_surcharges_witness:
  "amountCondition ''6500'' (Some (Fin 0)) (Some (Fin 9000))
   \<and> amountCondition ''2000'' (Some (Fin 0)) None
   \<and> amountCondition ''50'' (Some (Fin 10)) (Some (Fin 100))
   \<and> jgt (amountToBorrow ''6500'') (Fin 640000)
   \<and> jle (amountToBorrow ''6500'') (Fin 720000)
   \<and> totalCost ''6500'' = Fin 850000
   \<and> (\<exists>ef' r. calculate ''6500'' ''2000'' ''50'' (Some initialErrors) = Inr (ef', Some r)
        \<and> totalCostPounds r = ''8500'' \<and> totalCostPennies r = ''00'')"
  using total_cost_stacks_surcharges [OF passes_6500 passes_2000 passes_50, of initialErrors]
    passes_6500 passes_2000 passes_50
  by (auto simp: amountToBorrow_6500 jgt_def)

lemma amountToBorrow_7300: "amountToBorrow ''7300'' = Fin 730000"
  by (simp add: amountToBorrow_def parse_defs)

lemma amountToBorrow_100: "amountToBorrow ''100'' = Fin 10000"
  by (simp add: amountToBorrow_def parse_defs)

lemma passes_7300: "amountCondition ''7300'' (Some (Fin 0)) (Some (Fin 9000))"
  by (simp add: amountCondition_def jge_def parse_defs)

lemma passes_100: "amountCondition ''100'' (Some (Fin 0)) (Some (Fin 9000))"
  by (simp add: amountCondition_def jge_def parse_defs)

text \<open>
  Claim C9.  With borrow texts \<^verbatim>\<open>7300\<close>, \<^verbatim>\<open>6500\<close> and \<^verbatim>\<open>100\<close> the total cost is 900000,
  850000 and 800000 pence, in that descending order, and for any salary and percentage
  that pass their validations the result object shows 9000, 8500 and 8000 pounds and
  no pennies.
\<close>

theorem total_cost_at_7300_6500_100:
  assumes "amountCondition s (Some (Fin 0)) None"
    and "amountCondition p (Some (Fin 10)) (Some (Fin 100))"
  shows "totalCost ''7300'' = Fin 900000
       \<and> totalCost ''6500'' = Fin 850000
       \<and> totalCost ''100'' = Fin 800000
       \<and> jge (totalCost ''7300'') (totalCost ''6500'')
       \<and> jge (totalCost ''6500'') (totalCost ''100'')
       \<and> (\<exists>ef' r. calculate ''7300'' s p (Some ef) = Inr (ef', Some r)
            \<and> totalCostPounds r = ''9000'' \<and> totalCostPennies r = ''00'')
       \<and> (\<exists>ef' r. calculate ''6500'' s p (Some ef) = Inr (ef', Some r)
            \<and> totalCostPounds r = ''8500'' \<and> totalCostPennies r = ''00'')
       \<and> (\<exists>ef' r. calculate ''100'' s p (Some ef) = Inr (ef', Some r)
            \<and> totalCostPounds r = ''8000'' \<and> totalCostPennies r = ''00'')"
proof -
  have t: "totalCost ''7300'' = Fin 900000" "totalCost ''6500'' = Fin 850000"
    "totalCost ''100'' = Fin 800000"
    by (simp_all add: totalCost_cases amountToBorrow_7300 amountToBorrow_6500
        amountToBorrow_100 jgt_def)
  show ?thesis
    by (simp add: t jge_def computeFeeData_def
        calculate_passes [OF passes_7300 assms] calculate_passes [OF passes_6500 assms]
        calculate_passes [OF passes_100 assms])
qed

theorem total_cost_at_7300_6500_100_witness:
  "amountCondition ''2000'' (Some (Fin 0)) None
   \<and> amountCondition ''50'' (Some (Fin 10)) (Some (Fin 100))
   \<and> totalCost ''7300'' = Fin 900000
   \<and> totalCost ''6500'' = Fin 850000
   \<and> totalCost ''100'' = Fin 800000
   \<and> (\<exists>ef' r. calculate ''7300'' ''2000'' ''50'' (Some initialErrors) = Inr (ef', Some r)
        \<and> totalCostPounds r = ''9000'' \<and> totalCostPennies r = ''00'')"
  using total_cost_at_7300_6500_100 [OF passes_2000 passes_50, of initialErrors]
    passes_2000 passes_50
  by simp

text \<open>
  Claim C10.  Validation reads the text with \<open>parseInt\<close>, the calculation reads it again
  with \<open>parseFloat\<close> and multiplies by 100.  The text \<^verbatim>\<open>9000.99\<close> passes the borrow check
  as the integer 9000, and the calculation works with 900099 pence, which is more than
  the 900000 pence of the cap; its fee is 45005 pence.
\<close>

theorem validated_cap_does_not_bound_pence:
  "amountCondition ''9000.99'' (Some (Fin 0)) (Some (Fin 9000))
   \<and> parseInt ''9000.99'' = Fin 9000
   \<and> parseFloat ''9000.99'' = Fin (4948346583247749 / 549755813888)
   \<and> amountToBorrow ''9000.99'' = Fin 900099
   \<and> jgt (amountToBorrow ''9000.99'') (Fin 900000)
   \<and> adminFee ''9000.99'' = Fin 45005"
proof -
  have i: "parseInt ''9000.99'' = Fin 9000" by (simp add: parse_defs)
  have f: "parseFloat ''9000.99'' = Fin (4948346583247749 / 549755813888)"
    by (simp add: parse_defs fl_9000_99)
  have a: "amountToBorrow ''9000.99'' = Fin 900099"
    by (simp add: amountToBorrow_def f fl_times_100_9000_99)
  have fee: "adminFee ''9000.99'' = Fin 45005"
    by (simp add: adminFee_def a fl_one_twentieth fl_fee_9000_99)
  show ?thesis
    by (simp add: i f a fee amountCondition_def jge_def jgt_def)
qed

section \<open>Repayment\<close>

lemma passes_1000: "amountCondition ''1000'' (Some (Fin 0)) (Some (Fin 9000))"
  by (simp add: amountCondition_def jge_def parse_defs)

lemma monthlyPercRepay_50: "monthlyPercRepay ''50'' = Fin (1 / 2)"
  using fl_cert [of "1 / 2" 53 4503599627370496]
  by (simp add: monthlyPercRepay_def parse_defs)

lemma amountToBorrow_1000: "amountToBorrow ''1000'' = Fin 100000"
  by (simp add: amountToBorrow_def parse_defs)

lemma adminFee_1000: "adminFee ''1000'' = Fin 5000"
  by (simp add: adminFee_def amountToBorrow_1000 fl_one_twentieth fl_fee_1000)

lemma totalCost_1000: "totalCost ''1000'' = Fin 800000"
  by (simp add: totalCost_cases amountToBorrow_1000 jgt_def)

lemma expectedSalary_2000: "expectedSalary ''2000'' = Fin 200000"
  by (simp add: expectedSalary_def parse_defs)

lemma monthlyAmountRepaid_2000_50: "monthlyAmountRepaid ''2000'' ''50'' = Fin 100000"
  by (simp add: monthlyAmountRepaid_def monthlyPercRepay_50 expectedSalary_2000)

text \<open>
  The monthly repayment is the result of \<^verbatim>\<open>Math.ceil\<close>: an integer number of pence, an
  infinity or \<open>NaN\<close>.  When it is a positive integer \<open>k\<close>, the remainder and the division
  that follow are exact: the final payment is the total cost modulo \<open>k\<close> and the time to
  repay is one more than the number of full payments.
\<close>

lemma remainder_and_months_exact:
  assumes T: "totalCost b = Fin (of_int T)" "0 \<le> T" "T \<le> 900000"
    and k: "monthlyAmountRepaid s p = Fin (of_int k)" "0 < k"
  shows "repayInLastMonth b s p = Fin (of_int (T mod k))
       \<and> timeToRepay' b s p = Fin (of_int (1 + (T - T mod k) div k))"
proof -
  have kr: "(of_int k :: rat) \<noteq> 0" using k(2) by simp
  have quot: "\<lfloor>(of_int T :: rat) / of_int k\<rfloor> = T div k" by (rule floor_divide_of_int_eq)
  have "0 \<le> (of_int T :: rat) / of_int k" using T(2) k(2) by simp
  then have "truncate_rat (of_int T / of_int k) = T div k"
    by (simp add: truncate_rat_def quot)
  then have "(of_int T :: rat) - of_int k * of_int (truncate_rat (of_int T / of_int k))
      = of_int (T - k * (T div k))" by simp
  also have "T - k * (T div k) = T mod k" by (simp add: minus_mult_div_eq_mod)
  finally have last: "repayInLastMonth b s p = Fin (of_int (T mod k))"
    using kr by (simp add: repayInLastMonth_def T(1) k(1))
  have m0: "0 \<le> T mod k" "T mod k \<le> T"
    using k(2) T(2) by (simp_all add: zmod_le_nonneg_dividend)
  have diff: "jsub (Fin (of_int T)) (Fin (of_int (T mod k))) = Fin (of_int (T - T mod k))"
  proof -
    have "\<bar>T - T mod k\<bar> \<le> 2 ^ 53" using m0 T(3) by simp
    then have "fl (of_int (T - T mod k)) = Fin (of_int (T - T mod k))" by (rule fl_of_int)
    then show ?thesis by (simp add: jsub_def)
  qed
  have dvd: "k dvd T - T mod k" by (simp add: dvd_minus_mod)
  then have exact: "(of_int (T - T mod k) :: rat) / of_int k = of_int ((T - T mod k) div k)"
    using kr by (metis dvd_div_mult_self nonzero_mult_div_cancel_right of_int_mult)
  have q0: "0 \<le> (T - T mod k) div k" using m0 k(2) by (simp add: pos_imp_zdiv_nonneg_iff)
  have "(T - T mod k) div k \<le> (T - T mod k) div 1"
    using m0 k(2) by (intro zdiv_mono2) simp_all
  then have q1: "(T - T mod k) div k \<le> T - T mod k" by simp
  have "\<bar>(T - T mod k) div k\<bar> \<le> 2 ^ 53" using q0 q1 m0 T(3) by simp
  then have fq: "fl (of_int ((T - T mod k) div k)) = Fin (of_int ((T - T mod k) div k))"
    by (rule fl_of_int)
  have "\<bar>1 + (T - T mod k) div k\<bar> \<le> 2 ^ 53" using q0 q1 m0 T(3) by simp
  then have "fl (of_int (1 + (T - T mod k) div k)) = Fin (of_int (1 + (T - T mod k) div k))"
    by (rule fl_of_int)
  then have f1: "fl (1 + of_int ((T - T mod k) div k)) = Fin (of_int (1 + (T - T mod k) div k))"
    by simp
  have "jsub (totalCost b) (repayInLastMonth b s p) = Fin (of_int (T - T mod k))"
    unfolding T(1) last by (rule diff)
  moreover have "jdiv (Fin (of_int (T - T mod k))) (Fin (of_int k))
      = Fin (of_int ((T - T mod k) div k))"
    using kr by (simp only: jdiv.simps if_False exact fq)
  moreover have "ceil (Fin (of_int ((T - T mod k) div k))) = Fin (of_int ((T - T mod k) div k))"
    by simp
  moreover have "jadd (Fin 1) (Fin (of_int ((T - T mod k) div k)))
      = Fin (of_int (1 + (T - T mod k) div k))"
    by (simp only: jadd.simps f1)
  ultimately have "timeToRepay' b s p = Fin (of_int (1 + (T - T mod k) div k))"
    by (simp only: timeToRepay'_def k(1))
  with last show ?thesis by simp
qed

text \<open>The example of the specification: borrow 1000, salary 2000, 50 per cent.\<close>

lemma example_1000_2000_50:
  "monthlyAmountRepaid ''2000'' ''50'' = Fin 100000
   \<and> repayInLastMonth ''1000'' ''2000'' ''50'' = Fin 0
   \<and> timeToRepay' ''1000'' ''2000'' ''50'' = Fin 9
   \<and> calculate ''1000'' ''2000'' ''50'' (Some initialErrors) =
       Inr (initialErrors,
            Some \<lparr> adminFeePounds = ''50'', adminFeePennies = ''00'',
                   monthlyRepaymentPounds = ''1000'', monthlyRepaymentPennies = ''00'',
                   finalMonthPaymentPounds = ''0'', finalMonthPaymentPennies = ''00'',
                   totalCostPounds = ''8000'', totalCostPennies = ''00'',
                   timeToRepay = ''9'' \<rparr>)"
proof -
  note m = monthlyAmountRepaid_2000_50
  have l: "repayInLastMonth ''1000'' ''2000'' ''50'' = Fin 0"
    by (simp add: repayInLastMonth_def m totalCost_1000 truncate_rat_def)
  have t: "timeToRepay' ''1000'' ''2000'' ''50'' = Fin 9"
    by (simp add: timeToRepay'_def m l totalCost_1000 jsub_def)
  show ?thesis
    by (simp add: m l t calculate_passes [OF passes_1000 passes_2000 passes_50]
        computeFeeData_def adminFee_1000 totalCost_1000 initialErrors_def print_simps)
qed

lemma passes_14: "amountCondition ''14'' (Some (Fin 10)) (Some (Fin 100))"
  by (simp add: amountCondition_def jge_def parse_defs)

text \<open>
  Claim C3.  With borrow 1000, salary 2000 and 14 per cent, all three valid, the monthly
  repayment is 28001 pence: \<open>14 / 100\<close> is not a binary64 value, the nearest one lies
  above it, and its product with 200000 rounds to a value above 28000, which
  \<^verbatim>\<open>Math.ceil\<close> takes to 28001.  In exact arithmetic 14 per cent of 200000 pence is
  28000.  The final payment and the time to repay follow from 28001.
\<close>

theorem monthly_repayment_at_14_percent:
  "amountCondition ''1000'' (Some (Fin 0)) (Some (Fin 9000))
   \<and> amountCondition ''2000'' (Some (Fin 0)) None
   \<and> amountCondition ''14'' (Some (Fin 10)) (Some (Fin 100))
   \<and> monthlyPercRepay ''14'' = Fin (1261007895663739 / 9007199254740992)
   \<and> expectedSalary ''2000'' = Fin 200000
   \<and> monthlyAmountRepaid ''2000'' ''14'' = Fin 28001
   \<and> \<lceil>14 / 100 * (200000 :: rat)\<rceil> = 28000
   \<and> calculate ''1000'' ''2000'' ''14'' (Some initialErrors) =
       Inr (initialErrors,
            Some \<lparr> adminFeePounds = ''50'', adminFeePennies = ''00'',
                   monthlyRepaymentPounds = ''280'', monthlyRepaymentPennies = ''01'',
                   finalMonthPaymentPounds = ''159'', finalMonthPaymentPennies = ''72'',
                   totalCostPounds = ''8000'', totalCostPennies = ''00'',
                   timeToRepay = ''29'' \<rparr>)"
proof -
  have f: "monthlyPercRepay ''14'' = Fin (1261007895663739 / 9007199254740992)"
    by (simp add: monthlyPercRepay_def parse_defs fl_14_percent)
  have m: "monthlyAmountRepaid ''2000'' ''14'' = Fin 28001"
    by (simp add: monthlyAmountRepaid_def f expectedSalary_2000 fl_14_percent_of_2000)
  have l: "repayInLastMonth ''1000'' ''2000'' ''14'' = Fin 15972"
    by (simp add: repayInLastMonth_def m totalCost_1000 truncate_rat_def)
  have t: "timeToRepay' ''1000'' ''2000'' ''14'' = Fin 29"
    by (simp add: timeToRepay'_def m l totalCost_1000 jsub_def)
  show ?thesis
    by (simp add: f m l t passes_1000 passes_2000 passes_14 expectedSalary_2000
        calculate_passes [OF passes_1000 passes_2000 passes_14]
        computeFeeData_def adminFee_1000 totalCost_1000 initialErrors_def print_simps)
qed

subsection \<open>A monthly repayment of zero\<close>

lemma passes_salary_0: "amountCondition ''0'' (Some (Fin 0)) None"
  by (simp add: amountCondition_def jge_def parse_defs)

lemma expectedSalary_0: "expectedSalary ''0'' = Fin 0"
  by (simp add: expectedSalary_def parse_defs)

lemma jmod_zero [simp]: "jmod x (Fin 0) = NaN"
  by (cases x) simp_all

lemma jsub_NaN [simp]: "jsub x NaN = NaN"
  by (cases x) (simp_all add: jsub_def)

lemma jadd_NaN_right [simp]: "jadd x NaN = NaN"
  by (cases x) simp_all

lemma money_NaN [simp]:
  "toString (pounds NaN) = ''NaN''" "rightTruncate (pennies NaN) 2 = ''aN''"
  by (simp_all add: print_simps)

lemma money_0 [simp]:
  "toString (pounds (Fin 0)) = ''0''" "rightTruncate (pennies (Fin 0)) 2 = ''00''"
  by (simp_all add: print_simps)

text \<open>
  Claim C6.  Salary \<^verbatim>\<open>0\<close> passes its validation.  With it, any borrow text and
  percentage that pass theirs, and a finite repayment fraction, the monthly repayment
  is 0; the remainder and the division by it are carried out all the same and give
  \<open>NaN\<close>, and \<open>calculate\<close> returns a result object, whose final payment and time to
  repay read \<^verbatim>\<open>NaN\<close> and \<^verbatim>\<open>aN\<close>, instead of reporting an error.
\<close>

theorem zero_monthly_repayment_is_unguarded:
  assumes "amountCondition b (Some (Fin 0)) (Some (Fin 9000))"
    and "amountCondition p (Some (Fin 10)) (Some (Fin 100))"
    and "monthlyPercRepay p = Fin m"
  shows "amountCondition ''0'' (Some (Fin 0)) None
       \<and> monthlyAmountRepaid ''0'' p = Fin 0
       \<and> repayInLastMonth b ''0'' p = NaN
       \<and> timeToRepay' b ''0'' p = NaN
       \<and> (\<exists>ef' r. calculate b ''0'' p (Some ef) = Inr (ef', Some r)
            \<and> monthlyRepaymentPounds r = ''0'' \<and> monthlyRepaymentPennies r = ''00''
            \<and> finalMonthPaymentPounds r = ''NaN'' \<and> finalMonthPaymentPennies r = ''aN''
            \<and> timeToRepay r = ''NaN'')"
proof -
  have monthly: "monthlyAmountRepaid ''0'' p = Fin 0"
    by (simp add: monthlyAmountRepaid_def expectedSalary_0 assms(3))
  have last: "repayInLastMonth b ''0'' p = NaN"
    by (simp add: repayInLastMonth_def monthly)
  have time: "timeToRepay' b ''0'' p = NaN"
    by (simp add: timeToRepay'_def last)
  show ?thesis
    by (simp add: passes_salary_0 monthly last time computeFeeData_def
        calculate_passes [OF assms(1) passes_salary_0 assms(2)])
qed

theorem zero_monthly_repayment_is_unguarded_witness:
  "amountCondition ''1000'' (Some (Fin 0)) (Some (Fin 9000))
   \<and> amountCondition ''50'' (Some (Fin 10)) (Some (Fin 100))
   \<and> monthlyPercRepay ''50'' = Fin (1 / 2)
   \<and> amountCondition ''0'' (Some (Fin 0)) None
   \<and> monthlyAmountRepaid ''0'' ''50'' = Fin 0
   \<and> repayInLastMonth ''1000'' ''0'' ''50'' = NaN
   \<and> timeToRepay' ''1000'' ''0'' ''50'' = NaN
   \<and> (\<exists>ef' r. calculate ''1000'' ''0'' ''50'' (Some initialErrors) = Inr (ef', Some r)
        \<and> monthlyRepaymentPounds r = ''0'' \<and> monthlyRepaymentPennies r = ''00''
        \<and> finalMonthPaymentPounds r = ''NaN'' \<and> finalMonthPaymentPennies r = ''aN''
        \<and> timeToRepay r = ''NaN'')"
  using zero_monthly_repayment_is_unguarded
      [OF passes_1000 passes_50 monthlyPercRepay_50, of initialErrors]
    passes_1000 passes_50 monthlyPercRepay_50
  by simp

section \<open>The administration fee\<close>

text \<open>
  The fee is computed from the borrow text alone.
\<close>

lemma admin_fee_from_borrow_text_only:
  "adminFeePounds (computeFeeData b s p) = adminFeePounds (computeFeeData b s' p')
   \<and> adminFeePennies (computeFeeData b s p) = adminFeePennies (computeFeeData b s' p')"
  by (simp add: computeFeeData_def)

lemma passes_2_20: "amountCondition ''2.20'' (Some (Fin 0)) (Some (Fin 9000))"
  by (simp add: amountCondition_def jge_def parse_defs)

text \<open>
  Claim C5.  The text \<^verbatim>\<open>2.20\<close> passes the borrow validation.  \<open>2.2\<close> is not a binary64
  value, and 100 times the nearest one rounds to a value above 220; a twentieth of that
  lies above 11, and the fee is 12 pence.  In exact arithmetic the fee on 220 pence is
  11 pence.
\<close>

theorem admin_fee_at_2_20:
  "amountCondition ''2.20'' (Some (Fin 0)) (Some (Fin 9000))
   \<and> parseFloat ''2.20'' = Fin (2476979795053773 / 1125899906842624)
   \<and> amountToBorrow ''2.20'' = Fin (7740561859543041 / 35184372088832)
   \<and> jgt (amountToBorrow ''2.20'') (Fin 220)
   \<and> adminFee ''2.20'' = Fin 12
   \<and> \<lceil>5 / 100 * (100 * (220 / 100)) :: rat\<rceil> = 11
   \<and> (\<exists>ef' r. calculate ''2.20'' ''2000'' ''50'' (Some initialErrors) = Inr (ef', Some r)
        \<and> adminFeePounds r = ''0'' \<and> adminFeePennies r = ''12'')"
proof -
  have f: "parseFloat ''2.20'' = Fin (2476979795053773 / 1125899906842624)"
    by (simp add: parse_defs fl_2_20)
  have a: "amountToBorrow ''2.20'' = Fin (7740561859543041 / 35184372088832)"
    using f by (simp add: amountToBorrow_def fl_times_100_2_20)
  have fee: "adminFee ''2.20'' = Fin 12"
    by (simp add: adminFee_def a fl_one_twentieth fl_fee_2_20)
  show ?thesis
    using f a
    by (simp add: fee passes_2_20 jgt_def
        calculate_passes [OF passes_2_20 passes_2000 passes_50]
        computeFeeData_def print_simps)
qed

section \<open>The printed fields\<close>

text \<open>
  On a whole number of pennies from 0 to 99, \<open>rightTruncate\<close> gives the two digits.
\<close>

lemma decimalDigits_below_100:
  assumes "n < 100"
  shows "decimalDigits n =
    (if n < 10 then [digitChar n] else [digitChar (n div 10), digitChar (n mod 10)])"
proof (cases "n < 10")
  case True
  then show ?thesis by (simp add: decimalDigits.simps [of n])
next
  case False
  then have "n div 10 < 10" using assms by simp
  then have "decimalDigits (n div 10) = [digitChar (n div 10)]"
    by (simp add: decimalDigits.simps [of "n div 10"])
  then show ?thesis using False by (simp add: decimalDigits.simps [of n])
qed

lemma rightTruncate_pennies:
  assumes "n < 100"
  shows "rightTruncate (Fin (of_nat n)) 2 = [digitChar (n div 10), digitChar (n mod 10)]"
proof (cases "n = 0")
  case True
  then show ?thesis by (simp add: rightTruncate_2 digitChar_def)
next
  case False
  have "(of_nat n :: rat) \<le> of_nat (2 ^ 53)" using assms by (simp only: of_nat_le_iff) simp
  then have "(of_nat n :: rat) \<le> 2 ^ 53" by simp
  then have "toString (Fin (of_nat n)) = decimalDigits n"
    using False by (simp add: positiveToString_def)
  then show ?thesis
    using assms by (simp add: rightTruncate_2 decimalDigits_below_100 digitChar_def)
qed

lemma passes_minus_half: "amountCondition ''-0.5'' (Some (Fin 0)) (Some (Fin 9000))"
  by (simp add: amountCondition_def jge_def parse_defs)

text \<open>
  Claim C8.  The text \<^verbatim>\<open>-0.5\<close> passes the borrow validation, because \<open>parseInt\<close> reads
  it as zero; the calculation reads it as minus a half, that is \<open>-50\<close> pence, and the
  fee is \<open>-2\<close> pence.  With salary 2000 and 50 per cent the monthly repayment is
  positive, and the pennies of the fee are printed as \<^verbatim>\<open>-2\<close>: two characters, yet
  not two digits.
\<close>

theorem fee_pennies_at_minus_half:
  "amountCondition ''-0.5'' (Some (Fin 0)) (Some (Fin 9000))
   \<and> amountCondition ''2000'' (Some (Fin 0)) None
   \<and> amountCondition ''50'' (Some (Fin 10)) (Some (Fin 100))
   \<and> monthlyAmountRepaid ''2000'' ''50'' = Fin 100000
   \<and> amountToBorrow ''-0.5'' = Fin (- 50)
   \<and> adminFee ''-0.5'' = Fin (- 2)
   \<and> calculate ''-0.5'' ''2000'' ''50'' (Some initialErrors) =
       Inr (initialErrors,
            Some \<lparr> adminFeePounds = ''0'', adminFeePennies = ''-2'',
                   monthlyRepaymentPounds = ''1000'', monthlyRepaymentPennies = ''00'',
                   finalMonthPaymentPounds = ''0'', finalMonthPaymentPennies = ''00'',
                   totalCostPounds = ''8000'', totalCostPennies = ''00'',
                   timeToRepay = ''9'' \<rparr>)"
proof -
  have a: "amountToBorrow ''-0.5'' = Fin (- 50)"
    by (simp add: amountToBorrow_def parse_defs fl_neg fl_half)
  have fee: "adminFee ''-0.5'' = Fin (- 2)"
    by (simp add: adminFee_def a fl_one_twentieth fl_neg fl_fee_50)
  have c: "totalCost ''-0.5'' = Fin 800000"
    by (simp add: totalCost_cases a jgt_def)
  note m = monthlyAmountRepaid_2000_50
  have l: "repayInLastMonth ''-0.5'' ''2000'' ''50'' = Fin 0"
    by (simp add: repayInLastMonth_def m c truncate_rat_def)
  have t: "timeToRepay' ''-0.5'' ''2000'' ''50'' = Fin 9"
    by (simp add: timeToRepay'_def m l c jsub_def)
  show ?thesis
    by (simp add: a fee c m l t passes_minus_half passes_2000 passes_50
        calculate_passes [OF passes_minus_half passes_2000 passes_50]
        computeFeeData_def initialErrors_def print_simps)
qed

end
